theory Spec2Isabelle
  imports Main "HOL-Library.Word" "HOL-Library.AList"
begin

section \<open>Strings and bytes\<close>

text \<open>
  The program is TypeScript. A JavaScript string is a sequence of 16-bit code units; the
  model uses \<^typ>\<open>string\<close>, so it covers the strings whose code units are below 256
  (Latin-1). On these, \<open>trim\<close>, \<open>toLowerCase\<close>, \<open>split\<close>, \<open>slice\<close> and the regular
  expressions of the source act code unit by code unit, as modelled below. A
  \<open>Uint8Array\<close> is a list of 8-bit words.
\<close>

type_synonym bytes = "8 word list"

definition code :: "char \<Rightarrow> nat" where
  "code c = of_char c"

text \<open>The white space and line terminators that \<open>String.prototype.trim\<close> strips, below 256.\<close>

definition isSpace :: "char \<Rightarrow> bool" where
  "isSpace c = (code c \<in> {9, 10, 11, 12, 13, 32, 160})"

definition trim :: "string \<Rightarrow> string" where
  "trim s = rev (dropWhile isSpace (rev (dropWhile isSpace s)))"

text \<open>\<open>String.prototype.toLowerCase\<close> on Latin-1 code units.\<close>

definition lowerChar :: "char \<Rightarrow> char" where
  "lowerChar c =
     (if (65 \<le> code c \<and> code c \<le> 90) \<or> (192 \<le> code c \<and> code c \<le> 222 \<and> code c \<noteq> 215)
      then char_of (code c + 32) else c)"

definition toLowerCase :: "string \<Rightarrow> string" where
  "toLowerCase s = map lowerChar s"

text \<open>\<open>s.split(sep)\<close> for a one-character separator: never the empty list.\<close>

fun split :: "char \<Rightarrow> string \<Rightarrow> string list" where
  "split sep [] = [[]]"
| "split sep (c # cs) =
     (if c = sep then [] # split sep cs
      else (case split sep cs of [] \<Rightarrow> [[c]] | p # ps \<Rightarrow> (c # p) # ps))"

text \<open>\<open>parts.join(sep)\<close>.\<close>

fun join :: "char \<Rightarrow> string list \<Rightarrow> string" where
  "join sep [] = []"
| "join sep [p] = p"
| "join sep (p # q # ps) = p @ sep # join sep (q # ps)"

text \<open>\<open>String.prototype.toUpperCase\<close> on the Latin-1 code units whose upper case is again one
  Latin-1 code unit (all but \<open>0xB5\<close>, \<open>0xDF\<close> and \<open>0xFF\<close>, which are left as they are).\<close>

definition upperChar :: "char \<Rightarrow> char" where
  "upperChar c =
     (if (97 \<le> code c \<and> code c \<le> 122) \<or> (224 \<le> code c \<and> code c \<le> 254 \<and> code c \<noteq> 247)
      then char_of (code c - 32) else c)"

definition toUpperCase :: "string \<Rightarrow> string" where
  "toUpperCase s = map upperChar s"

definition endsWith :: "string \<Rightarrow> string \<Rightarrow> bool" where
  "endsWith s suffix = (length suffix \<le> length s \<and> drop (length s - length suffix) s = suffix)"

section \<open>File name sanitisation\<close>

text \<open>The character classes of \<open>sanitizeFileName\<close>: \<open>/[/?<>\\:*|"]/\<close>,
  \<open>/[\x00-\x1f\x80-\x9f]/\<close> and \<open>/[&'%!"{}[\]]/\<close>.\<close>

definition illegalChars :: "char \<Rightarrow> bool" where
  "illegalChars c = (code c \<in> {47, 63, 60, 62, 92, 58, 42, 124, 34})"

definition controlChars :: "char \<Rightarrow> bool" where
  "controlChars c = (code c \<le> 31 \<or> (128 \<le> code c \<and> code c \<le> 159))"

definition unsafeChars :: "char \<Rightarrow> bool" where
  "unsafeChars c = (code c \<in> {38, 39, 37, 33, 34, 123, 125, 91, 93})"

text \<open>\<open>.replace(/^\.+$/, '')\<close>: a name made only of dots becomes empty.\<close>

definition reservedPattern :: "string \<Rightarrow> bool" where
  "reservedPattern s = (s \<noteq> [] \<and> list_all (\<lambda>c. c = CHR ''.'') s)"

definition cleanName :: "string \<Rightarrow> string" where
  "cleanName name =
     (let s1 = filter (\<lambda>c. \<not> illegalChars c) name;
          s2 = filter (\<lambda>c. \<not> controlChars c) s1;
          s3 = (if reservedPattern s2 then [] else s2);
          s4 = filter (\<lambda>c. \<not> unsafeChars c) s3
      in s4)"

definition sanitizeFileName :: "string \<Rightarrow> string" where
  "sanitizeFileName input =
     (if trim input = [] then ''file.bin''
      else
        let parts = split CHR ''.'' input;
            ext = (if parts = [] \<or> last parts = [] then ''bin'' else last parts);
            name = join CHR ''.'' (butlast parts);
            sanitized = (if trim (cleanName name) = [] then ''file'' else trim (cleanName name))
        in take 200 sanitized @ ''.'' @ ext)"



section \<open>Exceptions and effects\<close>

text \<open>
  Every \<open>throw\<close> of the source, and every exception a collaborator (the converter's
  file system, the spreadsheet library) can raise, is a value. The wrappers carry the
  error they re-throw with a new message.
\<close>

datatype exn =
    ScriptLoadFailed                 \<comment> \<open>\<open>Failed to load X2T WASM script\<close>\<close>
  | ModuleNotFound                   \<comment> \<open>\<open>X2T module not found after script loading\<close>\<close>
  | InitTimeout                      \<comment> \<open>\<open>X2T initialization timeout after 300000ms\<close>\<close>
  | ModuleNotInitialized             \<comment> \<open>\<open>X2T module not initialized\<close>\<close>
  | TypeError                        \<comment> \<open>a member of \<open>null\<close> was read\<close>
  | UnsupportedFormat string         \<comment> \<open>\<open>Unsupported file format: ext\<close>\<close>
  | ConversionFailed int             \<comment> \<open>\<open>Conversion failed with code: n\<close>\<close>
  | CsvEmpty                         \<comment> \<open>\<open>CSV file is empty\<close>\<close>
  | XlsxLibraryFailed                \<comment> \<open>\<open>Failed to load xlsx library\<close>\<close>
  | CsvToXlsxFailed exn              \<comment> \<open>\<open>Failed to convert CSV to XLSX: ...\<close>\<close>
  | CsvConversionFailed exn          \<comment> \<open>\<open>Failed to convert CSV file: ...\<close>\<close>
  | DocumentConversionFailed exn     \<comment> \<open>\<open>Document conversion failed: ...\<close>\<close>
  | BinConversionFailed exn          \<comment> \<open>\<open>Bin to document conversion failed: ...\<close>\<close>
  | InvalidImageData                 \<comment> \<open>\<open>Invalid image data: expected Uint8Array\<close>\<close>
  | InvalidFileName                  \<comment> \<open>\<open>Invalid file name\<close>\<close>
  | HostError string                 \<comment> \<open>raised by a collaborator\<close>

text \<open>A computation on a state \<open>'s\<close> that returns a value or throws; the state it
  leaves is kept in both cases.\<close>

type_synonym ('a, 's) io = "'s \<Rightarrow> (exn + 'a) \<times> 's"

definition succeed :: "'a \<Rightarrow> ('a, 's) io" where
  "succeed a s = (Inr a, s)"

definition throwE :: "exn \<Rightarrow> ('a, 's) io" where
  "throwE e s = (Inl e, s)"

definition andThen :: "('a, 's) io \<Rightarrow> ('a \<Rightarrow> ('b, 's) io) \<Rightarrow> ('b, 's) io" where
  "andThen m f s = (case m s of (Inl e, s') \<Rightarrow> (Inl e, s') | (Inr a, s') \<Rightarrow> f a s')"

text \<open>\<open>try { m } catch (e) { handler e }\<close>.\<close>

definition tryCatch :: "('a, 's) io \<Rightarrow> (exn \<Rightarrow> ('a, 's) io) \<Rightarrow> ('a, 's) io" where
  "tryCatch m handler s = (case m s of (Inl e, s') \<Rightarrow> handler e s' | (Inr a, s') \<Rightarrow> (Inr a, s'))"

section \<open>The converter and its collaborators\<close>

datatype DocumentType = DocWord | DocCell | DocSlide

text \<open>What \<open>FS.writeFile\<close> is given: bytes, or the conversion parameters document
  (source path, destination path, additional parameters).\<close>

datatype content = Bin bytes | ParamsXml string string string

datatype fsCall =
    Mkdir string | WriteFile string content | ReadFile string | Readdir string | Ccall string

datatype sheet = Sheet "string list list"

record workbook =
  SheetNames :: "string list"
  Sheets :: "(string \<times> sheet) list"

text \<open>
  The collaborators, as parameters: the loading of the converter's script and the boot of
  its module, the MIME table \<open>getExtensions\<close> of \<open>ranuts/utils\<close>, the module's virtual
  file system over an arbitrary state \<open>'fs\<close>, its entry point \<open>main1\<close>, the SheetJS
  library and the text codecs. A file-system call returns \<open>Inl\<close> when it throws.
\<close>

record 'fs host =
  scriptLoads :: bool
  moduleDefined :: bool
  runtimeInitializes :: bool
  getExtensions :: "string \<Rightarrow> string list"
  fsMkdir :: "'fs \<Rightarrow> string \<Rightarrow> exn + 'fs"
  fsWriteFile :: "'fs \<Rightarrow> string \<Rightarrow> content \<Rightarrow> exn + 'fs"
  fsReadFile :: "'fs \<Rightarrow> string \<Rightarrow> exn + bytes"
  fsReaddir :: "'fs \<Rightarrow> string \<Rightarrow> exn + string list"
  main1 :: "'fs \<Rightarrow> string \<Rightarrow> int \<times> 'fs"
  xlsxLoads :: bool
  xlsxReadText :: "string \<Rightarrow> exn + workbook"
  xlsxReadArray :: "bytes \<Rightarrow> exn + workbook"
  xlsxWrite :: "workbook \<Rightarrow> exn + bytes"
  sheet_to_csv :: "sheet option \<Rightarrow> exn + string"
  utf8Decode :: "bytes \<Rightarrow> string option"
  latin1Decode :: "bytes \<Rightarrow> string"
  utf8Encode :: "string \<Rightarrow> bytes"

datatype promise = Fulfilled | Rejected exn

text \<open>A blob's type: a string, or the text of the inherited member that a lookup in a
  MIME table returned in its place.\<close>

datatype mime = Mime string | MimeOfMember string

datatype blob = Blob bytes mime

text \<open>The commands sent to the editor: \<open>asc_setImageUrls\<close>, \<open>asc_writeFileCallback\<close> with
  a path and an image name or with \<open>success: false\<close> and the error, and
  \<open>asc_onSaveCallback\<close> with its error code.\<close>

datatype command =
    SetImageUrls "(string \<times> nat) list"
  | WriteFileCallback nat string
  | WriteFileFailure exn
  | OnSaveCallback int

text \<open>
  The state: the fields of the \<open>X2TConverter\<close> singleton, the module's file system with
  the calls made to it, the object URLs minted so far (a URL is its index), the files
  handed to the save step, the tracked document's file name, whether \<open>window.editor\<close>
  is set and the commands sent to it, the module's global media map and the callbacks
  of write-file events that were called with a failure.
\<close>

record 'fs world =
  x2tModule :: bool
  isReady :: bool
  initPromise :: "promise option"
  hasScriptLoaded :: bool
  fs :: 'fs
  fsLog :: "fsCall list"
  objectUrls :: "blob list"
  saved :: "(string \<times> bytes) list"
  docFileName :: "string option"
  editor :: bool
  sent :: "command list"
  globalMedia :: "(string \<times> nat) list"
  calledBack :: "nat list"

subsection \<open>Initialisation\<close>

definition loadScript :: "'fs host \<Rightarrow> (unit, 'fs world) io" where
  "loadScript h w =
     (if hasScriptLoaded w then (Inr (), w)
      else if scriptLoads h then (Inr (), w\<lparr>hasScriptLoaded := True\<rparr>)
      else (Inl ScriptLoadFailed, w))"

text \<open>\<open>createWorkingDirectories\<close>: an \<open>mkdir\<close> that throws is ignored.\<close>

definition WORKING_DIRS :: "string list" where
  "WORKING_DIRS = [''/working'', ''/working/media'', ''/working/fonts'', ''/working/themes'']"

definition mkdirIgnoring :: "'fs host \<Rightarrow> string \<Rightarrow> 'fs world \<Rightarrow> 'fs world" where
  "mkdirIgnoring h dir w =
     (case fsMkdir h (fs w) dir of
        Inl e \<Rightarrow> w\<lparr>fsLog := fsLog w @ [Mkdir dir]\<rparr>
      | Inr fs' \<Rightarrow> w\<lparr>fs := fs', fsLog := fsLog w @ [Mkdir dir]\<rparr>)"

definition createWorkingDirectories :: "'fs host \<Rightarrow> 'fs world \<Rightarrow> 'fs world" where
  "createWorkingDirectories h w = fold (mkdirIgnoring h) WORKING_DIRS w"

text \<open>
  \<open>doInitialize\<close>, run until its promise settles. The result is the settled promise, the
  state, and whether the \<open>catch\<close> block ran. Only \<open>await this.loadScript()\<close> stands
  under the \<open>try\<close>: the promise built afterwards is returned, not awaited, so its
  rejection (module missing, timeout) settles the result without entering \<open>catch\<close>.
\<close>

definition doInitialize :: "'fs host \<Rightarrow> 'fs world \<Rightarrow> promise \<times> 'fs world \<times> bool" where
  "doInitialize h w =
     (case loadScript h w of
        (Inl e, w1) \<Rightarrow> (Rejected e, w1, True)
      | (Inr u, w1) \<Rightarrow>
          if \<not> moduleDefined h then (Rejected ModuleNotFound, w1, False)
          else if runtimeInitializes h
          then (Fulfilled, (createWorkingDirectories h w1)\<lparr>x2tModule := True, isReady := True\<rparr>, False)
          else (Rejected InitTimeout, w1, False))"

definition awaitPromise :: "promise \<Rightarrow> (unit, 's) io" where
  "awaitPromise p s = (case p of Fulfilled \<Rightarrow> (Inr (), s) | Rejected e \<Rightarrow> (Inl e, s))"

text \<open>
  \<open>initialize\<close>, awaited. \<open>this.initPromise = this.doInitialize()\<close> stores the promise
  before \<open>doInitialize\<close> reaches its first \<open>await\<close>; the \<open>catch\<close> block, when it
  runs, runs later and resets the field.
\<close>

definition initialize :: "'fs host \<Rightarrow> (unit, 'fs world) io" where
  "initialize h w =
     (if isReady w \<and> x2tModule w then (Inr (), w)
      else (case initPromise w of
              Some p \<Rightarrow> awaitPromise p w
            | None \<Rightarrow>
                (case doInitialize h w of
                   (p, w1, caught) \<Rightarrow>
                     awaitPromise p (w1\<lparr>initPromise := (if caught then None else Some p)\<rparr>))))"


subsection \<open>Property lookup on a plain object\<close>

text \<open>
  \<open>obj[key]\<close> on an object literal finds the object's own property, or else the member
  of \<open>Object.prototype\<close> of that name (a function, or the prototype itself for
  \<open>__proto__\<close>: truthy in both cases), or else \<open>undefined\<close>.
\<close>

datatype 'v property = Own 'v | Inherited | Undefined

definition objectPrototypeMembers :: "string list" where
  "objectPrototypeMembers =
     [''constructor'', ''__proto__'', ''hasOwnProperty'', ''isPrototypeOf'',
      ''propertyIsEnumerable'', ''toLocaleString'', ''toString'', ''valueOf'',
      ''__defineGetter__'', ''__defineSetter__'', ''__lookupGetter__'', ''__lookupSetter__'']"

definition getProperty :: "(string \<times> 'v) list \<Rightarrow> string \<Rightarrow> 'v property" where
  "getProperty obj key =
     (case map_of obj key of
        Some v \<Rightarrow> Own v
      | None \<Rightarrow> if key \<in> set objectPrototypeMembers then Inherited else Undefined)"

subsection \<open>Document types\<close>

definition DOCUMENT_TYPE_MAP :: "(string \<times> DocumentType) list" where
  "DOCUMENT_TYPE_MAP =
     [(''docx'', DocWord), (''doc'', DocWord), (''odt'', DocWord), (''rtf'', DocWord),
      (''txt'', DocWord), (''xlsx'', DocCell), (''xls'', DocCell), (''ods'', DocCell),
      (''csv'', DocCell), (''pptx'', DocSlide), (''ppt'', DocSlide), (''odp'', DocSlide)]"

text \<open>What \<open>getDocumentType\<close> returns: a document type of the table, or the inherited
  member that the lookup found and the test \<open>!docType\<close> let through.\<close>

datatype docTypeValue = Known DocumentType | PrototypeMember

definition getDocumentType :: "string \<Rightarrow> exn + docTypeValue" where
  "getDocumentType extension =
     (case getProperty DOCUMENT_TYPE_MAP (toLowerCase extension) of
        Own t \<Rightarrow> Inr (Known t)
      | Inherited \<Rightarrow> Inr PrototypeMember
      | Undefined \<Rightarrow> Inl (UnsupportedFormat extension))"

subsection \<open>The virtual file system and the converter's entry point\<close>

definition FS_writeFile :: "'fs host \<Rightarrow> string \<Rightarrow> content \<Rightarrow> (unit, 'fs world) io" where
  "FS_writeFile h path c w =
     (if \<not> x2tModule w then (Inl TypeError, w)
      else (case fsWriteFile h (fs w) path c of
              Inl e \<Rightarrow> (Inl e, w\<lparr>fsLog := fsLog w @ [WriteFile path c]\<rparr>)
            | Inr fs' \<Rightarrow> (Inr (), w\<lparr>fs := fs', fsLog := fsLog w @ [WriteFile path c]\<rparr>)))"

definition FS_readFile :: "'fs host \<Rightarrow> string \<Rightarrow> (bytes, 'fs world) io" where
  "FS_readFile h path w =
     (if \<not> x2tModule w then (Inl TypeError, w)
      else (fsReadFile h (fs w) path, w\<lparr>fsLog := fsLog w @ [ReadFile path]\<rparr>))"

definition FS_readdir :: "'fs host \<Rightarrow> string \<Rightarrow> (string list, 'fs world) io" where
  "FS_readdir h path w =
     (if \<not> x2tModule w then (Inl TypeError, w)
      else (fsReaddir h (fs w) path, w\<lparr>fsLog := fsLog w @ [Readdir path]\<rparr>))"

text \<open>\<open>window.URL.createObjectURL(blob)\<close>: a fresh URL.\<close>

definition createObjectURL :: "blob \<Rightarrow> (nat, 'fs world) io" where
  "createObjectURL b w = (Inr (length (objectUrls w)), w\<lparr>objectUrls := objectUrls w @ [b]\<rparr>)"

text \<open>\<open>executeConversion\<close>: on a non-zero code the parameters document is read back for
  the log, a failure of that read is ignored, and the conversion error is thrown.\<close>

definition executeConversion :: "'fs host \<Rightarrow> string \<Rightarrow> (unit, 'fs world) io" where
  "executeConversion h paramsPath w =
     (if \<not> x2tModule w then (Inl ModuleNotInitialized, w)
      else (case main1 h (fs w) paramsPath of
              (result, fs') \<Rightarrow>
                let w1 = w\<lparr>fs := fs', fsLog := fsLog w @ [Ccall paramsPath]\<rparr> in
                if result \<noteq> 0
                then (case tryCatch (FS_readFile h paramsPath) (\<lambda>e. succeed []) w1 of
                        (r, w2) \<Rightarrow> (Inl (ConversionFailed result), w2))
                else (Inr (), w1)))"

definition createConversionParams :: "string \<Rightarrow> string \<Rightarrow> string \<Rightarrow> content" where
  "createConversionParams fromPath toPath additionalParams =
     ParamsXml fromPath toPath additionalParams"

subsection \<open>Media extraction\<close>

text \<open>The loop body of \<open>readMediaFiles\<close>, with its own \<open>try\<close>/\<open>catch\<close>; the map is a
  JavaScript object, here the list of its properties in insertion order.\<close>

definition readMediaFile ::
  "'fs host \<Rightarrow> string \<Rightarrow> (string \<times> nat) list \<Rightarrow> ((string \<times> nat) list, 'fs world) io" where
  "readMediaFile h file m =
     tryCatch
       (andThen (FS_readFile h (''/working/media/'' @ file)) (\<lambda>fileData.
        andThen (createObjectURL (Blob fileData (Mime []))) (\<lambda>mediaUrl.
        succeed (AList.update (''media/'' @ file) mediaUrl m))))
       (\<lambda>error. succeed m)"

fun forEachMedia ::
  "'fs host \<Rightarrow> string list \<Rightarrow> (string \<times> nat) list \<Rightarrow> ((string \<times> nat) list, 'fs world) io" where
  "forEachMedia h [] m = succeed m"
| "forEachMedia h (file # files) m = andThen (readMediaFile h file m) (forEachMedia h files)"

text \<open>\<open>readMediaFiles\<close>. The outer \<open>catch\<close> returns the map as filled so far; it can only
  be entered from \<open>readdir\<close>, before any entry is added.\<close>

definition readMediaFiles :: "'fs host \<Rightarrow> ((string \<times> nat) list, 'fs world) io" where
  "readMediaFiles h w =
     (if \<not> x2tModule w then (Inr [], w)
      else tryCatch
             (andThen (FS_readdir h ''/working/media/'') (\<lambda>files.
              forEachMedia h (filter (\<lambda>file. file \<noteq> ''.'' \<and> file \<noteq> ''..'') files) []))
             (\<lambda>error. succeed []) w)"


subsection \<open>CSV to XLSX\<close>

record File =
  name :: string
  mimeType :: string
  arrayBuffer :: bytes

definition loadXlsxLibrary :: "'fs host \<Rightarrow> (unit, 'fs world) io" where
  "loadXlsxLibrary h w = (if xlsxLoads h then (Inr (), w) else (Inl XlsxLibraryFailed, w))"

definition BOM :: bytes where
  "BOM = [0xef, 0xbb, 0xbf]"

text \<open>\<open>fileName.replace(/\.csv$/i, '.xlsx')\<close>.\<close>

definition replaceCsvSuffix :: "string \<Rightarrow> string" where
  "replaceCsvSuffix fName =
     (if endsWith (toLowerCase fName) ''.csv''
      then take (length fName - 4) fName @ ''.xlsx'' else fName)"

definition decodeCsv :: "'fs host \<Rightarrow> bytes \<Rightarrow> (string, 'fs world) io" where
  "decodeCsv h csvData =
     (if 3 \<le> length csvData \<and> take 3 csvData = BOM
      then (case utf8Decode h (drop 3 csvData) of
              Some t \<Rightarrow> succeed t
            | None \<Rightarrow> throwE (HostError ''TextDecoder''))
      else (case utf8Decode h csvData of
              Some t \<Rightarrow> succeed t
            | None \<Rightarrow> succeed (latin1Decode h csvData)))"

definition liftE :: "exn + 'a \<Rightarrow> ('a, 's) io" where
  "liftE r s = (r, s)"

definition convertCsvToXlsx :: "'fs host \<Rightarrow> bytes \<Rightarrow> string \<Rightarrow> (File, 'fs world) io" where
  "convertCsvToXlsx h csvData fName =
     tryCatch
       (andThen (loadXlsxLibrary h) (\<lambda>u.
        andThen (decodeCsv h csvData) (\<lambda>csvText.
        andThen (liftE (xlsxReadText h csvText)) (\<lambda>wb.
        andThen (liftE (xlsxWrite h wb)) (\<lambda>xlsxBuffer.
        succeed \<lparr>name = replaceCsvSuffix fName,
                 mimeType = ''application/vnd.openxmlformats-officedocument.spreadsheetml.sheet'',
                 arrayBuffer = xlsxBuffer\<rparr>)))))
       (\<lambda>error. throwE (CsvToXlsxFailed error))"

subsection \<open>File to bin\<close>

record ConversionResult =
  fileName :: string
  docType :: docTypeValue
  bin :: bytes
  media :: "(string \<times> nat) list"

text \<open>\<open>getExtensions(file?.type)[0] || fileName.split('.').pop() || ''\<close>.\<close>

definition fileExtOf :: "'fs host \<Rightarrow> File \<Rightarrow> string" where
  "fileExtOf h file =
     (case getExtensions h (mimeType file) of
        e # es \<Rightarrow> if e \<noteq> [] then e else last (split CHR ''.'' (name file))
      | [] \<Rightarrow> last (split CHR ''.'' (name file)))"

text \<open>The steps both branches of \<open>convertDocument\<close> spell out: stage the input, write the
  parameters document, run the converter and read its output; then read the media.\<close>

definition stageAndConvert :: "'fs host \<Rightarrow> string \<Rightarrow> bytes \<Rightarrow> (bytes, 'fs world) io" where
  "stageAndConvert h sanitizedName fileData =
     (let inputPath = ''/working/'' @ sanitizedName;
          outputPath = inputPath @ ''.bin''
      in andThen (FS_writeFile h inputPath (Bin fileData)) (\<lambda>u1.
         andThen (FS_writeFile h ''/working/params.xml''
                    (createConversionParams inputPath outputPath [])) (\<lambda>u2.
         andThen (executeConversion h ''/working/params.xml'') (\<lambda>u3.
         FS_readFile h outputPath))))"

definition convertStaged ::
  "'fs host \<Rightarrow> string \<Rightarrow> bytes \<Rightarrow> string \<Rightarrow> docTypeValue \<Rightarrow> (ConversionResult, 'fs world) io" where
  "convertStaged h sanitizedName fileData resultName documentType =
     andThen (stageAndConvert h sanitizedName fileData) (\<lambda>result.
     andThen (readMediaFiles h) (\<lambda>m.
     succeed \<lparr>fileName = resultName, docType = documentType, bin = result, media = m\<rparr>))"

text \<open>The CSV branch of \<open>convertDocument\<close>: CSV to XLSX, then the XLSX bytes through the
  converter under the synthesised name; the result carries the sanitised original name.\<close>

definition convertCsvDocument ::
  "'fs host \<Rightarrow> bytes \<Rightarrow> string \<Rightarrow> docTypeValue \<Rightarrow> (ConversionResult, 'fs world) io" where
  "convertCsvDocument h fileData fName documentType =
     (if fileData = [] then throwE CsvEmpty
      else tryCatch
             (andThen (convertCsvToXlsx h fileData fName) (\<lambda>xlsxFile.
              convertStaged h (sanitizeFileName (name xlsxFile)) (arrayBuffer xlsxFile)
                (sanitizeFileName fName) documentType))
             (\<lambda>conversionError. throwE (CsvConversionFailed conversionError)))"

text \<open>\<open>convertDocument\<close>: the extension is looked up before the \<open>try\<close> block, so its
  error is not wrapped.\<close>

definition convertDocument :: "'fs host \<Rightarrow> File \<Rightarrow> (ConversionResult, 'fs world) io" where
  "convertDocument h file =
     andThen (initialize h) (\<lambda>u.
     andThen (liftE (getDocumentType (fileExtOf h file))) (\<lambda>documentType.
     tryCatch
       (if toLowerCase (fileExtOf h file) = ''csv''
        then convertCsvDocument h (arrayBuffer file) (name file) documentType
        else convertStaged h (sanitizeFileName (name file)) (arrayBuffer file)
               (sanitizeFileName (name file)) documentType)
       (\<lambda>error. throwE (DocumentConversionFailed error))))"

subsection \<open>Bin to file\<close>

record BinConversionResult =
  outFileName :: string
  data :: bytes

text \<open>\<open>.replace(/\.[^/.]+$/, '')\<close>: drops a last dot and what follows it, when that is not
  empty and holds no slash.\<close>

definition stripExtension :: "string \<Rightarrow> string" where
  "stripExtension s =
     (let parts = split CHR ''.'' s
      in if 2 \<le> length parts \<and> last parts \<noteq> [] \<and> CHR ''/'' \<notin> set (last parts)
         then join CHR ''.'' (butlast parts) else s)"

text \<open>\<open>saveWithFileSystemAPI\<close> is called and not awaited: the pipeline hands the bytes and
  the name to the save picker or to the download link and goes on.\<close>

definition saveWithFileSystemAPI :: "bytes \<Rightarrow> string \<Rightarrow> (unit, 'fs world) io" where
  "saveWithFileSystemAPI bs fName w = (Inr (), w\<lparr>saved := saved w @ [(fName, bs)]\<rparr>)"

text \<open>\<open>workbook.Sheets[workbook.SheetNames[0]]\<close>; without a first name the key is
  \<open>undefined\<close>.\<close>

definition firstSheet :: "workbook \<Rightarrow> sheet option" where
  "firstSheet wb =
     (case SheetNames wb of
        [] \<Rightarrow> map_of (Sheets wb) ''undefined''
      | firstSheetName # rest \<Rightarrow> map_of (Sheets wb) firstSheetName)"

text \<open>The converter run of both branches of \<open>convertBinToDocumentAndDownload\<close>: write the
  bin file and the parameters document, run the converter, read the output file.\<close>

definition convertBinStaged ::
  "'fs host \<Rightarrow> bytes \<Rightarrow> string \<Rightarrow> string \<Rightarrow> string \<Rightarrow> (bytes, 'fs world) io" where
  "convertBinStaged h binData binFileName toFileName additionalParams =
     andThen (FS_writeFile h (''/working/'' @ binFileName) (Bin binData)) (\<lambda>u1.
     andThen (FS_writeFile h ''/working/params.xml''
                (createConversionParams (''/working/'' @ binFileName)
                   (''/working/'' @ toFileName) additionalParams)) (\<lambda>u2.
     andThen (executeConversion h ''/working/params.xml'') (\<lambda>u3.
     FS_readFile h (''/working/'' @ toFileName))))"

text \<open>The CSV branch: bin to XLSX by the converter, the first sheet of the XLSX to CSV
  text by the library, the text encoded after a byte-order mark, and the save.\<close>

definition binToCsv ::
  "'fs host \<Rightarrow> bytes \<Rightarrow> string \<Rightarrow> string \<Rightarrow> (BinConversionResult, 'fs world) io" where
  "binToCsv h binData sanitizedBase outputFileName =
     andThen (convertBinStaged h binData (sanitizedBase @ ''.bin'') (sanitizedBase @ ''.xlsx'') [])
       (\<lambda>xlsxArray.
     andThen (loadXlsxLibrary h) (\<lambda>u4.
     andThen (liftE (xlsxReadArray h xlsxArray)) (\<lambda>wb.
     andThen (liftE (sheet_to_csv h (firstSheet wb))) (\<lambda>csvText.
     andThen (saveWithFileSystemAPI (BOM @ utf8Encode h csvText) outputFileName) (\<lambda>u5.
     succeed \<lparr>outFileName = outputFileName, data = BOM @ utf8Encode h csvText\<rparr>)))))"

definition binToOther ::
  "'fs host \<Rightarrow> bytes \<Rightarrow> string \<Rightarrow> string \<Rightarrow> string \<Rightarrow> (BinConversionResult, 'fs world) io" where
  "binToOther h binData sanitizedBase targetExt outputFileName =
     andThen (convertBinStaged h binData (sanitizedBase @ ''.bin'') outputFileName
                (if targetExt = ''PDF'' then ''<m_sFontDir>/working/fonts/</m_sFontDir>'' else []))
       (\<lambda>result.
     andThen (saveWithFileSystemAPI result outputFileName) (\<lambda>u4.
     succeed \<lparr>outFileName = outputFileName, data = result\<rparr>))"

text \<open>An absent file name is not a string and sanitises to \<open>file.bin\<close>; an absent target
  takes the default \<open>DOCX\<close>.\<close>

definition sanitizedBaseOf :: "string option \<Rightarrow> string" where
  "sanitizedBaseOf originalFileName =
     stripExtension
       (case originalFileName of None \<Rightarrow> ''file.bin'' | Some n \<Rightarrow> sanitizeFileName n)"

definition convertBinToDocumentAndDownload ::
  "'fs host \<Rightarrow> bytes \<Rightarrow> string option \<Rightarrow> string option \<Rightarrow> (BinConversionResult, 'fs world) io" where
  "convertBinToDocumentAndDownload h binData originalFileName target =
     andThen (initialize h) (\<lambda>u.
     let targetExt = (case target of None \<Rightarrow> ''DOCX'' | Some t \<Rightarrow> t);
         sanitizedBase = sanitizedBaseOf originalFileName;
         outputFileName = sanitizedBase @ ''.'' @ toLowerCase targetExt
     in tryCatch
          (if toUpperCase targetExt = ''CSV''
           then binToCsv h binData sanitizedBase outputFileName
           else binToOther h binData sanitizedBase targetExt outputFileName)
          (\<lambda>error. throwE (BinConversionFailed error)))"

subsection \<open>Saving from the editor\<close>

definition oAscFileType :: "(string \<times> int) list" where
  "oAscFileType =
     [(''UNKNOWN'', 0), (''PDF'', 513), (''PDFA'', 521), (''DJVU'', 515), (''XPS'', 516),
      (''DOCX'', 65), (''DOC'', 66), (''ODT'', 67), (''RTF'', 68), (''TXT'', 69),
      (''HTML'', 70), (''MHT'', 71), (''EPUB'', 72), (''FB2'', 73), (''MOBI'', 74),
      (''DOCM'', 75), (''DOTX'', 76), (''DOTM'', 77), (''FODT'', 78), (''OTT'', 79),
      (''DOC_FLAT'', 80), (''DOCX_FLAT'', 81), (''HTML_IN_CONTAINER'', 82),
      (''DOCX_PACKAGE'', 84), (''OFORM'', 85), (''DOCXF'', 86), (''DOCY'', 4097),
      (''CANVAS_WORD'', 8193), (''JSON'', 2056), (''XLSX'', 257), (''XLS'', 258),
      (''ODS'', 259), (''CSV'', 260), (''XLSM'', 261), (''XLTX'', 262), (''XLTM'', 263),
      (''XLSB'', 264), (''FODS'', 265), (''OTS'', 266), (''XLSX_FLAT'', 267),
      (''XLSX_PACKAGE'', 268), (''XLSY'', 4098), (''PPTX'', 129), (''PPT'', 130),
      (''ODP'', 131), (''PPSX'', 132), (''PPTM'', 133), (''PPSM'', 134), (''POTX'', 135),
      (''POTM'', 136), (''FODP'', 137), (''OTP'', 138), (''PPTX_PACKAGE'', 139),
      (''IMG'', 1024), (''JPG'', 1025), (''TIFF'', 1026), (''TGA'', 1027), (''GIF'', 1028),
      (''PNG'', 1029), (''EMF'', 1030), (''WMF'', 1031), (''BMP'', 1032), (''CR2'', 1033),
      (''PCX'', 1034), (''RAS'', 1035), (''PSD'', 1036), (''ICO'', 1037)]"

text \<open>\<open>Object.fromEntries\<close> of the swapped entries: a later entry would replace an
  earlier one of the same code.\<close>

definition c_oAscFileType2 :: "int \<Rightarrow> string option" where
  "c_oAscFileType2 = map_of (rev (map (\<lambda>(key, v). (v, key)) oAscFileType))"

text \<open>A save event: \<open>event.data\<close> may be absent, and within it \<open>event.data.data\<close>; when
  present that holds the bytes, beside \<open>option.outputformat\<close>.\<close>

datatype SaveEvent = SaveEvent "(bytes option \<times> int) option"

definition notifySaved :: "(unit, 'fs world) io" where
  "notifySaved w =
     (Inr (), if editor w then w\<lparr>sent := sent w @ [OnSaveCallback 0]\<rparr> else w)"

definition targetFormatOf :: "string option \<Rightarrow> int \<Rightarrow> string option" where
  "targetFormatOf fName outputformat =
     (case fName of
        None \<Rightarrow> c_oAscFileType2 outputformat
      | Some n \<Rightarrow>
          if n \<noteq> [] \<and> endsWith (toLowerCase n) ''.csv'' then Some ''CSV''
          else c_oAscFileType2 outputformat)"

definition handleSaveDocument :: "'fs host \<Rightarrow> SaveEvent \<Rightarrow> (unit, 'fs world) io" where
  "handleSaveDocument h event w =
     (case event of
        SaveEvent (Some (Some bs, outputformat)) \<Rightarrow>
          andThen
            (convertBinToDocumentAndDownload h bs (docFileName w)
               (targetFormatOf (docFileName w) outputformat))
            (\<lambda>r. notifySaved) w
      | SaveEvent (Some (None, outputformat)) \<Rightarrow> notifySaved w
      | SaveEvent None \<Rightarrow> notifySaved w)"


subsection \<open>Write-file events\<close>

text \<open>The values that the argument of \<open>handleWriteFile\<close> (of type \<open>any\<close>) and its
  members can be.\<close>

datatype jsValue =
    JUndefined | JNull | JBool bool | JNumber int | JString string
  | JUint8Array bytes | JObject "(string \<times> jsValue) list" | JFunction nat

definition truthy :: "jsValue \<Rightarrow> bool" where
  "truthy v =
     (case v of
        JUndefined \<Rightarrow> False | JNull \<Rightarrow> False | JBool b \<Rightarrow> b | JNumber n \<Rightarrow> n \<noteq> 0
      | JString t \<Rightarrow> t \<noteq> [] | JUint8Array b \<Rightarrow> True | JObject ps \<Rightarrow> True
      | JFunction f \<Rightarrow> True)"

text \<open>\<open>v.key\<close> for the keys the handler reads (none is a member of a prototype).\<close>

definition member :: "jsValue \<Rightarrow> string \<Rightarrow> jsValue" where
  "member v key =
     (case v of
        JObject ps \<Rightarrow> (case map_of ps key of Some x \<Rightarrow> x | None \<Rightarrow> JUndefined)
      | _ \<Rightarrow> JUndefined)"

definition mimeMap :: "(string \<times> string) list" where
  "mimeMap =
     [(''png'', ''image/png''), (''jpg'', ''image/jpeg''), (''jpeg'', ''image/jpeg''),
      (''gif'', ''image/gif''), (''bmp'', ''image/bmp''), (''webp'', ''image/webp''),
      (''svg'', ''image/svg+xml''), (''ico'', ''image/x-icon''), (''tiff'', ''image/tiff''),
      (''tif'', ''image/tiff'')]"

definition getMimeTypeFromExtension :: "string \<Rightarrow> mime" where
  "getMimeTypeFromExtension extension =
     (case getProperty mimeMap (toLowerCase extension) of
        Own m \<Rightarrow> Mime m
      | Inherited \<Rightarrow> MimeOfMember (toLowerCase extension)
      | Undefined \<Rightarrow> Mime ''image/png'')"

text \<open>
  The calls that leave \<open>handleWriteFile\<close>: whether \<open>window.editor.sendCommand\<close> throws
  for a command, and whether the callback of an event throws.
\<close>

record editorApi =
  sendCommandThrows :: "command \<Rightarrow> bool"
  callbackThrows :: "nat \<Rightarrow> bool"

definition isNullish :: "jsValue \<Rightarrow> bool" where
  "isNullish v = (case v of JUndefined \<Rightarrow> True | JNull \<Rightarrow> True | _ \<Rightarrow> False)"

text \<open>Reading a member, as a destructuring pattern or \<open>v.key\<close> does: a \<open>TypeError\<close> on
  \<open>undefined\<close> and \<open>null\<close>.\<close>

definition readMember :: "jsValue \<Rightarrow> string \<Rightarrow> (jsValue, 's) io" where
  "readMember v key = (if isNullish v then throwE TypeError else succeed (member v key))"

text \<open>\<open>window.editor?.sendCommand(c)\<close>, and the guarded call of the \<open>catch\<close> block: nothing
  without an editor; with one, the command is sent unless the call throws.\<close>

definition sendCommand :: "editorApi \<Rightarrow> command \<Rightarrow> (unit, 'fs world) io" where
  "sendCommand api c w =
     (if \<not> editor w then (Inr (), w)
      else if sendCommandThrows api c then (Inl (HostError ''sendCommand''), w)
      else (Inr (), w\<lparr>sent := sent w @ [c]\<rparr>))"

text \<open>\<open>event.callback({success: false, ...})\<close>.\<close>

definition callBack :: "editorApi \<Rightarrow> nat \<Rightarrow> (unit, 'fs world) io" where
  "callBack api f w =
     (if callbackThrows api f then (Inl (HostError ''callback''), w)
      else (Inr (), w\<lparr>calledBack := calledBack w @ [f]\<rparr>))"

text \<open>The \<open>try\<close> block of \<open>handleWriteFile\<close>.\<close>

definition writeFileBody :: "editorApi \<Rightarrow> jsValue \<Rightarrow> (unit, 'fs world) io" where
  "writeFileBody api event =
     andThen (readMember event ''data'') (\<lambda>eventData.
     if \<not> truthy eventData then succeed ()
     else
       (case member eventData ''data'' of
          JUint8Array imageData \<Rightarrow>
            (case member eventData ''file'' of
               JString fName \<Rightarrow>
                 if fName = [] then throwE InvalidFileName
                 else
                   (let popped = toLowerCase (last (split CHR ''.'' fName));
                        fileExtension = (if popped = [] then ''png'' else popped);
                        mimeType = getMimeTypeFromExtension fileExtension
                    in andThen (createObjectURL (Blob imageData mimeType)) (\<lambda>objectUrl.
                       andThen (\<lambda>w. (Inr (), w\<lparr>globalMedia :=
                                  AList.update (''media/'' @ fName) objectUrl (globalMedia w)\<rparr>)) (\<lambda>u1.
                       andThen (\<lambda>w. sendCommand api (SetImageUrls (globalMedia w)) w) (\<lambda>u2.
                       sendCommand api (WriteFileCallback objectUrl fName)))))
             | _ \<Rightarrow> throwE InvalidFileName)
        | _ \<Rightarrow> throwE InvalidImageData))"

text \<open>The \<open>catch\<close> block: the failure report to the editor, then \<open>event.callback\<close> is
  read and, when it is a function, called. Neither call stands under a \<open>try\<close>.\<close>

definition writeFileFailed :: "editorApi \<Rightarrow> jsValue \<Rightarrow> exn \<Rightarrow> (unit, 'fs world) io" where
  "writeFileFailed api event error =
     andThen (sendCommand api (WriteFileFailure error)) (\<lambda>u.
     andThen (readMember event ''callback'') (\<lambda>cb.
     (case cb of JFunction f \<Rightarrow> callBack api f | _ \<Rightarrow> succeed ())))"

definition handleWriteFile :: "editorApi \<Rightarrow> jsValue \<Rightarrow> (unit, 'fs world) io" where
  "handleWriteFile api event = tryCatch (writeFileBody api event) (writeFileFailed api event)"

section \<open>The editor's operation queue\<close>

text \<open>
  \<open>queueEditorOperation\<close> and \<open>createEditorInstance\<close> are asynchronous. They are
  modelled on the page's event loop: promises with the continuations that wait for
  them, the queue of microtasks, and the timers. A task is a continuation of one call
  of \<open>createEditorInstance\<close>, named by the \<open>await\<close> it resumes from.
\<close>

datatype pstate = Pending | Settled promise

datatype task =
    ResumeQueue nat nat
      \<comment> \<open>call \<open>k\<close> resumes from \<open>await editorOperationQueue\<close>, which read promise \<open>p\<close>\<close>
  | AfterDestroyDelay nat
      \<comment> \<open>the operation of call \<open>k\<close> resumes from the 150 ms wait after \<open>destroyEditor\<close>\<close>
  | AfterCleanupDelay nat
      \<comment> \<open>the operation of call \<open>k\<close> resumes from the 150 ms wait before construction\<close>
  | OperationDone nat "exn option"
      \<comment> \<open>call \<open>k\<close> resumes from \<open>await operation()\<close>, with the error it threw if any\<close>

datatype event =
    DestroyEditor nat nat     \<comment> \<open>call \<open>k\<close> called \<open>destroyEditor\<close> on instance \<open>i\<close>\<close>
  | ClearContainer nat        \<comment> \<open>call \<open>k\<close> emptied the container\<close>
  | Construct nat nat         \<comment> \<open>call \<open>k\<close> constructed instance \<open>i\<close>\<close>

record EditorConfig =
  cfgFileName :: string
  cfgFileType :: string

record call =
  config :: EditorConfig
  operationPromise :: "nat option"
  outcome :: pstate

text \<open>The editor component: whether \<open>new DocsAPI.DocEditor\<close> returns for a
  configuration (it throws otherwise), and whether \<open>destroyEditor\<close> of an instance
  throws.\<close>

record editorHost =
  constructs :: "EditorConfig \<Rightarrow> bool"
  destroyThrows :: "nat \<Rightarrow> bool"

text \<open>The page: promise \<open>i\<close> is \<open>promises ! i\<close>, editor instance \<open>i\<close> is live when
  \<open>instances ! i\<close>; timers are kept in the order they were set, with their due time.\<close>

record page =
  promises :: "pstate list"
  editorOperationQueue :: nat
  windowEditor :: "nat option"
  instances :: "bool list"
  microtasks :: "task list"
  waiting :: "(nat \<times> task) list"
  timers :: "(nat \<times> task) list"
  now :: nat
  calls :: "call list"
  events :: "event list"

text \<open>The page as the module is loaded: \<open>editorOperationQueue = Promise.resolve()\<close>.\<close>

definition initialPage :: page where
  "initialPage =
     \<lparr>promises = [Settled Fulfilled], editorOperationQueue = 0, windowEditor = None,
      instances = [], microtasks = [], waiting = [], timers = [], now = 0, calls = [],
      events = []\<rparr>"

definition promiseState :: "page \<Rightarrow> nat \<Rightarrow> pstate" where
  "promiseState pg p = (if p < length (promises pg) then promises pg ! p else Pending)"

text \<open>\<open>await p\<close>: the continuation is a microtask once \<open>p\<close> is settled.\<close>

definition await :: "nat \<Rightarrow> task \<Rightarrow> page \<Rightarrow> page" where
  "await p t pg =
     (case promiseState pg p of
        Pending \<Rightarrow> pg\<lparr>waiting := waiting pg @ [(p, t)]\<rparr>
      | Settled v \<Rightarrow> pg\<lparr>microtasks := microtasks pg @ [t]\<rparr>)"

definition settle :: "nat \<Rightarrow> promise \<Rightarrow> page \<Rightarrow> page" where
  "settle p v pg =
     pg\<lparr>promises := (promises pg)[p := Settled v],
        microtasks := microtasks pg @ map snd (filter (\<lambda>(q, t). q = p) (waiting pg)),
        waiting := filter (\<lambda>(q, t). q \<noteq> p) (waiting pg)\<rparr>"

definition setTimeout :: "nat \<Rightarrow> task \<Rightarrow> page \<Rightarrow> page" where
  "setTimeout delay t pg = pg\<lparr>timers := timers pg @ [(now pg + delay, t)]\<rparr>"

definition setOutcome :: "nat \<Rightarrow> pstate \<Rightarrow> page \<Rightarrow> page" where
  "setOutcome k r pg =
     (if k < length (calls pg)
      then pg\<lparr>calls := (calls pg)[k := (calls pg ! k)\<lparr>outcome := r\<rparr>]\<rparr> else pg)"

text \<open>A call of \<open>createEditorInstance\<close>, up to its first \<open>await\<close>: it reads the current
  tail and waits for it. Nothing is installed yet.\<close>

definition createEditorInstance :: "EditorConfig \<Rightarrow> page \<Rightarrow> page" where
  "createEditorInstance cfg pg =
     (let k = length (calls pg);
          p = editorOperationQueue pg
      in await p (ResumeQueue k p)
           (pg\<lparr>calls := calls pg @ [\<lparr>config = cfg, operationPromise = None, outcome = Pending\<rparr>]\<rparr>))"

text \<open>The operation from the container clean-up on: empty the container, wait 150 ms.\<close>

definition cleanupContainer :: "nat \<Rightarrow> page \<Rightarrow> page" where
  "cleanupContainer k pg =
     setTimeout 150 (AfterCleanupDelay k) (pg\<lparr>events := events pg @ [ClearContainer k]\<rparr>)"

text \<open>The start of the operation: with an editor in \<open>window.editor\<close>, call its
  \<open>destroyEditor\<close> and wait 150 ms; if that throws, the \<open>catch\<close> logs it. Then
  \<open>window.editor = undefined\<close> and the clean-up.\<close>

definition startOperation :: "editorHost \<Rightarrow> nat \<Rightarrow> page \<Rightarrow> page" where
  "startOperation eh k pg =
     (case windowEditor pg of
        None \<Rightarrow> cleanupContainer k pg
      | Some i \<Rightarrow>
          let pg1 = pg\<lparr>events := events pg @ [DestroyEditor k i],
                        instances := (instances pg)[i := False]\<rparr>
          in if destroyThrows eh i
             then cleanupContainer k (pg1\<lparr>windowEditor := None\<rparr>)
             else setTimeout 150 (AfterDestroyDelay k) pg1)"

definition runTask :: "editorHost \<Rightarrow> task \<Rightarrow> page \<Rightarrow> page" where
  "runTask eh t pg =
     (case t of
        ResumeQueue k p \<Rightarrow>
          (case promiseState pg p of
             Settled (Rejected e) \<Rightarrow> setOutcome k (Settled (Rejected e)) pg
           | _ \<Rightarrow> \<comment> \<open>fulfilled: a continuation runs only once its promise is settled\<close>
               let op = length (promises pg);
                   pg1 = pg\<lparr>promises := promises pg @ [Pending], editorOperationQueue := op\<rparr>;
                   pg2 = (if k < length (calls pg1)
                          then pg1\<lparr>calls := (calls pg1)[k := (calls pg1 ! k)\<lparr>operationPromise := Some op\<rparr>]\<rparr>
                          else pg1)
               in startOperation eh k pg2)
      | AfterDestroyDelay k \<Rightarrow> cleanupContainer k (pg\<lparr>windowEditor := None\<rparr>)
      | AfterCleanupDelay k \<Rightarrow>
          if k < length (calls pg) \<and> constructs eh (config (calls pg ! k))
          then (let i = length (instances pg)
                in pg\<lparr>windowEditor := Some i, instances := instances pg @ [True],
                      events := events pg @ [Construct k i],
                      microtasks := microtasks pg @ [OperationDone k None]\<rparr>)
          else pg\<lparr>microtasks := microtasks pg @ [OperationDone k (Some (HostError ''DocEditor''))]\<rparr>
      | OperationDone k r \<Rightarrow>
          (let v = (case r of None \<Rightarrow> Fulfilled | Some e \<Rightarrow> Rejected e);
               pg1 = (if k < length (calls pg)
                      then (case operationPromise (calls pg ! k) of
                              Some op \<Rightarrow> settle op v pg | None \<Rightarrow> pg)
                      else pg)
           in setOutcome k (Settled v) pg1))"

text \<open>The timer that fires next: the earliest due, the first set among equals.\<close>

fun nextTimer :: "(nat \<times> task) list \<Rightarrow> (nat \<times> task) option" where
  "nextTimer [] = None"
| "nextTimer (x # xs) =
     (case nextTimer xs of
        None \<Rightarrow> Some x
      | Some y \<Rightarrow> if fst y < fst x then Some y else Some x)"

text \<open>One turn of the event loop: a microtask if there is one, else the next timer.\<close>

definition step :: "editorHost \<Rightarrow> page \<Rightarrow> page option" where
  "step eh pg =
     (case microtasks pg of
        t # ts \<Rightarrow> Some (runTask eh t (pg\<lparr>microtasks := ts\<rparr>))
      | [] \<Rightarrow>
          (case nextTimer (timers pg) of
             None \<Rightarrow> None
           | Some (due, t) \<Rightarrow>
               Some (runTask eh t (pg\<lparr>timers := remove1 (due, t) (timers pg), now := due\<rparr>))))"

text \<open>The loop, for at most \<open>n\<close> turns; it stops when the page is idle.\<close>

fun run :: "editorHost \<Rightarrow> nat \<Rightarrow> page \<Rightarrow> page" where
  "run eh 0 pg = pg"
| "run eh (Suc n) pg = (case step eh pg of None \<Rightarrow> pg | Some pg' \<Rightarrow> run eh n pg')"

definition idle :: "page \<Rightarrow> bool" where
  "idle pg = (microtasks pg = [] \<and> timers pg = [])"

text \<open>The instances that were constructed and not destroyed.\<close>

definition liveEditors :: "page \<Rightarrow> nat list" where
  "liveEditors pg = filter (\<lambda>i. instances pg ! i) [0 ..< length (instances pg)]"

section \<open>A concrete host\<close>

text \<open>
  A host in which everything works: the file system is a list of paths with their
  contents, the converter copies the source file of the parameters document to its
  destination, and the spreadsheet library keeps a text as the one cell of one sheet.
\<close>

definition demoHost :: "(string \<times> content) list host" where
  "demoHost =
     \<lparr>scriptLoads = True, moduleDefined = True, runtimeInitializes = True,
      getExtensions = (\<lambda>t. if t = ''text/csv'' then [''csv''] else []),
      fsMkdir = (\<lambda>files dir. Inr files),
      fsWriteFile = (\<lambda>files path c. Inr (AList.update path c files)),
      fsReadFile = (\<lambda>files path.
         case map_of files path of
           Some (Bin b) \<Rightarrow> Inr b
         | Some (ParamsXml a b c) \<Rightarrow> Inr []
         | None \<Rightarrow> Inl (HostError ''ENOENT'')),
      fsReaddir = (\<lambda>files dir.
         Inr ([''.'', ''..''] @
              map (drop (length dir)) (filter (\<lambda>p. take (length dir) p = dir) (map fst files)))),
      main1 = (\<lambda>files paramsPath.
         case map_of files paramsPath of
           Some (ParamsXml fromPath toPath extra) \<Rightarrow>
             (case map_of files fromPath of
                Some c \<Rightarrow> (0, AList.update toPath c files)
              | None \<Rightarrow> (89, files))
         | Some (Bin b) \<Rightarrow> (1, files)
         | None \<Rightarrow> (1, files)),
      xlsxLoads = True,
      xlsxReadText = (\<lambda>t. Inr \<lparr>SheetNames = [''Sheet1''], Sheets = [(''Sheet1'', Sheet [[t]])]\<rparr>),
      xlsxReadArray = (\<lambda>b. Inr \<lparr>SheetNames = [''Sheet1'', ''Sheet2''],
         Sheets = [(''Sheet1'', Sheet [[''a'', ''b'']]), (''Sheet2'', Sheet [[''c'']])]\<rparr>),
      xlsxWrite = (\<lambda>wb. Inr [0x50, 0x4b, 0x03, 0x04]),
      sheet_to_csv = (\<lambda>sh.
         case sh of
           Some (Sheet rows) \<Rightarrow> Inr (join CHR 0x0A (map (join CHR '','') rows))
         | None \<Rightarrow> Inl (HostError ''sheet'')),
      utf8Decode = (\<lambda>b. Some (map (\<lambda>x. char_of (unat x)) b)),
      latin1Decode = (\<lambda>b. map (\<lambda>x. char_of (unat x)) b),
      utf8Encode = (\<lambda>t. map (\<lambda>c. of_nat (code c)) t)\<rparr>"

text \<open>A converter that has not been initialised, in a page with no editor.\<close>

definition freshWorld :: "'fs \<Rightarrow> 'fs world" where
  "freshWorld files =
     \<lparr>x2tModule = False, isReady = False, initPromise = None, hasScriptLoaded = False,
      fs = files, fsLog = [], objectUrls = [], saved = [], docFileName = None,
      editor = False, sent = [], globalMedia = [], calledBack = []\<rparr>"


text \<open>A CSV file as the file picker hands it over.\<close>

definition reportCsv :: File where
  "reportCsv = \<lparr>name = ''report.csv'', mimeType = ''text/csv'', arrayBuffer = [0x61, 0x2c, 0x62]\<rparr>"

text \<open>A CSV file by its MIME type only.\<close>

definition dataTxt :: File where
  "dataTxt = \<lparr>name = ''data.txt'', mimeType = ''text/csv'', arrayBuffer = [0x61, 0x2c, 0x62]\<rparr>"

text \<open>The name part that \<open>sanitizeFileName\<close> builds from the text before the last dot.\<close>

definition cleanStem :: "string \<Rightarrow> string" where
  "cleanStem n0 = take 200 (if trim (cleanName n0) = [] then ''file'' else trim (cleanName n0))"

section \<open>Frames\<close>

text \<open>A computation keeps a component \<open>f\<close> of the state when it never changes it,
  whether it returns or throws; it keeps it on a throw when it leaves it unchanged in
  the runs that throw.\<close>

definition keeps :: "('s \<Rightarrow> 'b) \<Rightarrow> ('a, 's) io \<Rightarrow> bool" where
  "keeps f m = (\<forall>s. f (snd (m s)) = f s)"

definition keepsOnThrow :: "('s \<Rightarrow> 'b) \<Rightarrow> ('a, 's) io \<Rightarrow> bool" where
  "keepsOnThrow f m = (\<forall>s. isl (fst (m s)) \<longrightarrow> f (snd (m s)) = f s)"

text \<open>A page in which a document named \<open>Report.CSV\<close> is open in the editor.\<close>

definition csvSession :: "(string \<times> content) list world" where
  "csvSession = (freshWorld [])\<lparr>docFileName := Some ''Report.CSV'', editor := True\<rparr>"

text \<open>A ready converter whose media directory holds three files, and a host that fails
  to read the second.\<close>

definition mediaWorld :: "(string \<times> content) list world" where
  "mediaWorld =
     (freshWorld [(''/working/media/image1.png'', Bin [1]), (''/working/media/image2.png'', Bin [2]),
                  (''/working/media/image3.png'', Bin [3])])
       \<lparr>x2tModule := True, isReady := True, initPromise := Some Fulfilled, hasScriptLoaded := True\<rparr>"

definition brokenMediaHost :: "(string \<times> content) list host" where
  "brokenMediaHost =
     demoHost\<lparr>fsReadFile := (\<lambda>files path.
       if path = ''/working/media/image2.png'' then Inl (HostError ''EIO'')
       else fsReadFile demoHost files path)\<rparr>"

text \<open>A ready converter with an empty file system, and a file whose name ends in
  \<open>.constructor\<close>, of no known MIME type.\<close>

definition readyWorld :: "(string \<times> content) list world" where
  "readyWorld =
     (freshWorld [])\<lparr>x2tModule := True, isReady := True, initPromise := Some Fulfilled,
                      hasScriptLoaded := True\<rparr>"

definition constructorFile :: File where
  "constructorFile = \<lparr>name = ''a.constructor'', mimeType = [], arrayBuffer = [1, 2]\<rparr>"

text \<open>An editor whose \<open>sendCommand\<close> returns, with callbacks that return; and one whose
  \<open>sendCommand\<close> throws.\<close>

definition quietApi :: editorApi where
  "quietApi = \<lparr>sendCommandThrows = (\<lambda>c. False), callbackThrows = (\<lambda>f. False)\<rparr>"

definition throwingApi :: editorApi where
  "throwingApi = \<lparr>sendCommandThrows = (\<lambda>c. True), callbackThrows = (\<lambda>f. False)\<rparr>"

text \<open>Whether a write-file payload carries bytes and a non-empty file name.\<close>

definition validImageData :: "jsValue \<Rightarrow> bool" where
  "validImageData v = (case v of JUint8Array b \<Rightarrow> True | _ \<Rightarrow> False)"

definition validFileName :: "jsValue \<Rightarrow> bool" where
  "validFileName v = (case v of JString t \<Rightarrow> t \<noteq> [] | _ \<Rightarrow> False)"

text \<open>An editor component that always constructs and whose \<open>destroyEditor\<close> returns; one
  whose constructor throws for the file type \<open>bad\<close>; and three configurations.\<close>

definition workingEditor :: editorHost where
  "workingEditor = \<lparr>constructs = (\<lambda>cfg. True), destroyThrows = (\<lambda>i. False)\<rparr>"

definition failingEditor :: editorHost where
  "failingEditor = \<lparr>constructs = (\<lambda>cfg. cfgFileType cfg \<noteq> ''bad''), destroyThrows = (\<lambda>i. False)\<rparr>"

definition docxConfig :: EditorConfig where
  "docxConfig = \<lparr>cfgFileName = ''a.docx'', cfgFileType = ''docx''\<rparr>"

definition xlsxConfig :: EditorConfig where
  "xlsxConfig = \<lparr>cfgFileName = ''b.xlsx'', cfgFileType = ''xlsx''\<rparr>"

definition badConfig :: EditorConfig where
  "badConfig = \<lparr>cfgFileName = ''c.bad'', cfgFileType = ''bad''\<rparr>"

section \<open>Properties of the string operations\<close>

lemma split_not_Nil: "split sep s \<noteq> []"
  by (induction s) (auto split: list.splits)

lemma join_split: "join sep (split sep s) = s"
proof (induction s)
  case Nil
  then show ?case by simp
next
  case (Cons c cs)
  obtain p ps where ps: "split sep cs = p # ps"
    using split_not_Nil [of sep cs] by (cases "split sep cs") auto
  show ?case
  proof (cases "c = sep")
    case True
    with Cons ps show ?thesis by simp
  next
    case False
    with Cons ps show ?thesis by (cases ps) auto
  qed
qed


lemma split_single: "sep \<notin> set e \<Longrightarrow> split sep e = [e]"
  by (induction e) auto

lemma split_append_sep:
  "sep \<notin> set e \<Longrightarrow> split sep (n @ sep # e) = split sep n @ [e]"
proof (induction n)
  case Nil
  then show ?case by (simp add: split_single)
next
  case (Cons c n)
  obtain q qs where qs: "split sep n = q # qs"
    using split_not_Nil [of sep n] by (cases "split sep n") auto
  from Cons qs show ?case by auto
qed


lemma dropWhile_all: "(\<forall>x \<in> set (dropWhile P s). P x) \<longleftrightarrow> (\<forall>x \<in> set s. P x)"
proof
  assume L: "\<forall>x \<in> set (dropWhile P s). P x"
  have "dropWhile P s = []"
  proof (rule ccontr)
    assume ne: "dropWhile P s \<noteq> []"
    then have "\<not> P (hd (dropWhile P s))" by (rule hd_dropWhile)
    moreover have "hd (dropWhile P s) \<in> set (dropWhile P s)" using ne by (rule hd_in_set)
    ultimately show False using L by blast
  qed
  then show "\<forall>x \<in> set s. P x" by (simp only: dropWhile_eq_Nil_conv)
next
  assume "\<forall>x \<in> set s. P x"
  then show "\<forall>x \<in> set (dropWhile P s). P x" using set_dropWhileD by fast
qed

lemma trim_Nil_iff: "trim s = [] \<longleftrightarrow> (\<forall>c \<in> set s. isSpace c)"
  by (simp add: trim_def dropWhile_all)













section \<open>File name sanitisation: what holds\<close>

lemma sanitizeFileName_keeps_delete_character:
  "\<not> controlChars (char_of (127 :: nat))
   \<and> sanitizeFileName [CHR ''a'', char_of (127 :: nat), CHR ''.'', CHR ''b'']
        = [CHR ''a'', char_of (127 :: nat), CHR ''.'', CHR ''b'']"
  by code_simp

lemma sanitizeFileName_dots_left_by_unsafe_characters:
  "sanitizeFileName ''!..a'' = ''..a'' \<and> sanitizeFileName ''..a'' = ''file.a''"
  by code_simp

lemma sanitizeFileName_space_left_by_truncation:
  "sanitizeFileName (replicate 199 CHR ''a'' @ '' b.c'') = replicate 199 CHR ''a'' @ '' .c''
   \<and> sanitizeFileName (replicate 199 CHR ''a'' @ '' .c'') = replicate 199 CHR ''a'' @ ''.c''"
  by code_simp





section \<open>Reasoning about computations\<close>

lemma andThen_InrE:
  assumes "andThen m f s = (Inr b, s')"
  obtains a s1 where "m s = (Inr a, s1)" and "f a s1 = (Inr b, s')"
  using assms by (auto simp: andThen_def split: prod.splits sum.splits)

lemma tryCatch_rethrow_Inr:
  "tryCatch m (\<lambda>e. throwE (g e)) s = (Inr a, s') \<Longrightarrow> m s = (Inr a, s')"
  by (auto simp: tryCatch_def throwE_def split: prod.splits sum.splits)

lemma liftE_Inr: "liftE r s = (Inr a, s') \<Longrightarrow> r = Inr a \<and> s' = s"
  by (simp add: liftE_def)

lemma succeed_Inr: "succeed a s = (Inr b, s') \<Longrightarrow> b = a \<and> s' = s"
  by (simp add: succeed_def)

section \<open>Opening a CSV file\<close>

lemma getDocumentType_csv: "toLowerCase ext = ''csv'' \<Longrightarrow> getDocumentType ext = Inr (Known DocCell)"
  by (simp add: getDocumentType_def getProperty_def DOCUMENT_TYPE_MAP_def)

lemma convertStaged_result:
  assumes "convertStaged h sn d rn dt w = (Inr r, w')"
  shows "fileName r = rn \<and> docType r = dt"
  using assms unfolding convertStaged_def
  by (elim andThen_InrE) (auto dest: succeed_Inr)

lemma convertCsvDocument_result:
  assumes "convertCsvDocument h d fName dt w = (Inr r, w')"
  shows "fileName r = sanitizeFileName fName \<and> docType r = dt"
proof -
  from assms have "d \<noteq> []"
    by (auto simp: convertCsvDocument_def throwE_def split: if_splits)
  with assms have "andThen (convertCsvToXlsx h d fName) (\<lambda>xlsxFile.
              convertStaged h (sanitizeFileName (name xlsxFile)) (arrayBuffer xlsxFile)
                (sanitizeFileName fName) dt) w = (Inr r, w')"
    by (auto simp: convertCsvDocument_def dest: tryCatch_rethrow_Inr)
  then show ?thesis
    by (elim andThen_InrE) (rule convertStaged_result)
qed

lemma convertDocument_csv_main:
  assumes csv: "toLowerCase (fileExtOf h file) = ''csv''"
    and ok: "convertDocument h file w = (Inr r, w')"
  shows "fileName r = sanitizeFileName (name file) \<and> docType r = Known DocCell"
  using ok unfolding convertDocument_def
proof (elim andThen_InrE)
  fix u w1 dt w2
  assume dt: "liftE (getDocumentType (fileExtOf h file)) w1 = (Inr dt, w2)"
    and body: "tryCatch
       (if toLowerCase (fileExtOf h file) = ''csv''
        then convertCsvDocument h (arrayBuffer file) (name file) dt
        else convertStaged h (sanitizeFileName (name file)) (arrayBuffer file)
               (sanitizeFileName (name file)) dt)
       (\<lambda>error. throwE (DocumentConversionFailed error)) w2 = (Inr r, w')"
  from dt have dt': "dt = Known DocCell"
    using getDocumentType_csv [OF csv] by (auto dest!: liftE_Inr)
  from body have "convertCsvDocument h (arrayBuffer file) (name file) dt w2 = (Inr r, w')"
    using csv by (auto dest: tryCatch_rethrow_Inr)
  then show ?thesis using dt' by (auto dest: convertCsvDocument_result)
qed


lemma lowerChar_dot: "lowerChar c = CHR ''.'' \<longleftrightarrow> c = CHR ''.''"
proof
  assume l: "lowerChar c = CHR ''.''"
  show "c = CHR ''.''"
  proof (rule ccontr)
    assume n: "c \<noteq> CHR ''.''"
    with l have up: "(65 \<le> code c \<and> code c \<le> 90) \<or> (192 \<le> code c \<and> code c \<le> 222 \<and> code c \<noteq> 215)"
      and eq: "char_of (code c + 32) = CHR ''.''"
      by (auto simp: lowerChar_def split: if_splits)
    from eq have "of_char (char_of (code c + 32) :: char) = (46::nat)" by simp
    then have "(code c + 32) mod 256 = 46" by (simp add: of_char_of)
    with up show False by (auto simp: mod_if split: if_splits)
  qed
next
  assume "c = CHR ''.''"
  then show "lowerChar c = CHR ''.''" by (simp add: lowerChar_def code_def)
qed

lemma endsWith_csv_split:
  assumes "endsWith (toLowerCase n) ''.csv''"
  obtains n0 e where "n = n0 @ ''.'' @ e" and "toLowerCase e = ''csv''"
    and "CHR ''.'' \<notin> set e" and "length n0 = length n - 4"
proof -
  define d where "d = drop (length n - 4) n"
  have l4: "length ''.csv'' = (4::nat)" by simp
  from assms have "length ''.csv'' \<le> length (toLowerCase n)"
    and "drop (length (toLowerCase n) - length ''.csv'') (toLowerCase n) = ''.csv''"
    by (simp_all only: endsWith_def)
  then have len: "4 \<le> length n" and dd: "map lowerChar d = ''.csv''"
    unfolding l4 by (simp_all add: toLowerCase_def d_def drop_map)
  from dd obtain c0 c1 c2 c3 where d: "d = [c0, c1, c2, c3]"
    and l0: "lowerChar c0 = CHR ''.''" and l1: "lowerChar c1 = CHR ''c''"
    and l2: "lowerChar c2 = CHR ''s''" and l3: "lowerChar c3 = CHR ''v''"
    by (auto simp: map_eq_Cons_conv)
  from l0 have c0: "c0 = CHR ''.''" by (simp add: lowerChar_dot)
  have nd: "c1 \<noteq> CHR ''.''" "c2 \<noteq> CHR ''.''" "c3 \<noteq> CHR ''.''"
    using l1 l2 l3 lowerChar_dot [of c1] lowerChar_dot [of c2] lowerChar_dot [of c3] by auto
  have n: "n = take (length n - 4) n @ d" by (simp add: d_def)
  show ?thesis
  proof (rule that [of "take (length n - 4) n" "[c1, c2, c3]"])
    show "n = take (length n - 4) n @ ''.'' @ [c1, c2, c3]" using n d c0 by simp
    show "toLowerCase [c1, c2, c3] = ''csv''" using l1 l2 l3 by (simp add: toLowerCase_def)
    show "CHR ''.'' \<notin> set [c1, c2, c3]" using nd by auto
    show "length (take (length n - 4) n) = length n - 4" by simp
  qed
qed

lemma sanitize_append_ext:
  assumes e1: "CHR ''.'' \<notin> set e" and e2: "e \<noteq> []"
  shows "sanitizeFileName (n0 @ ''.'' @ e) = cleanStem n0 @ ''.'' @ e"
proof -
  have "\<not> isSpace CHR ''.''" by (simp add: isSpace_def code_def)
  then have a: "trim (n0 @ CHR ''.'' # e) \<noteq> []"
    using trim_Nil_iff [of "n0 @ CHR ''.'' # e"] by auto
  have parts: "split CHR ''.'' (n0 @ CHR ''.'' # e) = split CHR ''.'' n0 @ [e]"
    using e1 by (rule split_append_sep)
  show ?thesis
    unfolding sanitizeFileName_def Let_def cleanStem_def
    using a e2 by (simp add: parts join_split)
qed

lemma endsWith_append: "endsWith (a @ b) b"
  by (simp add: endsWith_def)

lemma sanitize_csv_name:
  assumes "endsWith (toLowerCase n) ''.csv''"
  shows "endsWith (toLowerCase (sanitizeFileName n)) ''.csv''
         \<and> sanitizeFileName n \<noteq> sanitizeFileName (replaceCsvSuffix n)"
proof -
  from assms obtain n0 e where n: "n = n0 @ ''.'' @ e" and le: "toLowerCase e = ''csv''"
    and e1: "CHR ''.'' \<notin> set e" and l0: "length n0 = length n - 4"
    by (rule endsWith_csv_split)
  from le have e3: "length e = 3" by (auto simp: toLowerCase_def)
  then have e2: "e \<noteq> []" by auto
  have s1: "sanitizeFileName n = cleanStem n0 @ ''.'' @ e"
    unfolding n using e1 e2 by (rule sanitize_append_ext)
  have "toLowerCase (sanitizeFileName n) = (toLowerCase (cleanStem n0)) @ ''.csv''"
    using le by (simp add: s1 toLowerCase_def lowerChar_dot)
  then have p1: "endsWith (toLowerCase (sanitizeFileName n)) ''.csv''"
    by (simp only: endsWith_append)
  have "replaceCsvSuffix n = n0 @ ''.'' @ ''xlsx''"
    using assms l0 n by (simp add: replaceCsvSuffix_def)
  then have s2: "sanitizeFileName (replaceCsvSuffix n) = cleanStem n0 @ ''.'' @ ''xlsx''"
    using sanitize_append_ext [of "''xlsx''" n0] by simp
  have "length (sanitizeFileName n) \<noteq> length (sanitizeFileName (replaceCsvSuffix n))"
    using e3 by (simp add: s1 s2)
  then have "sanitizeFileName n \<noteq> sanitizeFileName (replaceCsvSuffix n)" by auto
  with p1 show ?thesis by simp
qed

section \<open>Frame rules\<close>

lemma keepsD: "keeps f m \<Longrightarrow> m s = (r, s') \<Longrightarrow> f s' = f s"
  by (auto simp: keeps_def dest: spec [of _ s])

lemma keepsOnThrowD: "keepsOnThrow f m \<Longrightarrow> m s = (Inl e, s') \<Longrightarrow> f s' = f s"
  by (auto simp: keepsOnThrow_def dest: spec [of _ s])

lemma keeps_succeed: "keeps f (succeed a)"
  by (simp add: keeps_def succeed_def)

lemma keeps_throwE: "keeps f (throwE e)"
  by (simp add: keeps_def throwE_def)

lemma keeps_liftE: "keeps f (liftE r)"
  by (simp add: keeps_def liftE_def)

lemma keeps_andThen: "keeps f m \<Longrightarrow> (\<And>a. keeps f (g a)) \<Longrightarrow> keeps f (andThen m g)"
  by (auto simp: keeps_def andThen_def split: prod.splits sum.splits)
    (metis snd_conv)+

lemma keeps_tryCatch: "keeps f m \<Longrightarrow> (\<And>e. keeps f (g e)) \<Longrightarrow> keeps f (tryCatch m g)"
  by (auto simp: keeps_def tryCatch_def split: prod.splits sum.splits)
    (metis snd_conv)+

lemma keeps_imp_onThrow: "keeps f m \<Longrightarrow> keepsOnThrow f m"
  by (simp add: keeps_def keepsOnThrow_def)

lemma keepsOnThrow_andThen:
  "keeps f m \<Longrightarrow> (\<And>a. keepsOnThrow f (g a)) \<Longrightarrow> keepsOnThrow f (andThen m g)"
  by (auto simp: keeps_def keepsOnThrow_def andThen_def split: prod.splits sum.splits)
    (metis fst_conv snd_conv isl_def)+

lemma keepsOnThrow_rethrow:
  "keepsOnThrow f m \<Longrightarrow> keepsOnThrow f (tryCatch m (\<lambda>e. throwE (g e)))"
  by (auto simp: keepsOnThrow_def tryCatch_def throwE_def split: prod.splits sum.splits)
    (metis fst_conv snd_conv isl_def)+


section \<open>Saving as CSV\<close>

lemma saved_mkdirs: "saved (fold (mkdirIgnoring h) dirs w) = saved w"
  by (induction dirs arbitrary: w) (auto simp: mkdirIgnoring_def split: sum.splits)

lemma keeps_saved_initialize: "keeps saved (initialize h)"
  by (auto simp: keeps_def initialize_def doInitialize_def loadScript_def awaitPromise_def
      createWorkingDirectories_def saved_mkdirs split: option.splits promise.splits)

lemma keeps_saved_writeFile: "keeps saved (FS_writeFile h p c)"
  by (auto simp: keeps_def FS_writeFile_def split: sum.splits)

lemma keeps_saved_readFile: "keeps saved (FS_readFile h p)"
  by (auto simp: keeps_def FS_readFile_def)

lemma keeps_saved_executeConversion: "keeps saved (executeConversion h p)"
  by (auto simp: keeps_def executeConversion_def Let_def tryCatch_def FS_readFile_def succeed_def
      split: prod.splits sum.splits)

lemma keeps_saved_loadXlsx: "keeps saved (loadXlsxLibrary h)"
  by (auto simp: keeps_def loadXlsxLibrary_def)

lemma keeps_saved_notifySaved: "keeps saved notifySaved"
  by (auto simp: keeps_def notifySaved_def)

lemma keeps_saved_convertBinStaged: "keeps saved (convertBinStaged h b bn tn ap)"
  unfolding convertBinStaged_def
  by (intro keeps_andThen keeps_saved_writeFile keeps_saved_executeConversion keeps_saved_readFile)

lemma FS_writeFile_Inr:
  "FS_writeFile h p c w = (Inr u, w') \<Longrightarrow> fsLog w' = fsLog w @ [WriteFile p c]"
  by (auto simp: FS_writeFile_def split: if_splits sum.splits)

lemma FS_readFile_Inr:
  "FS_readFile h p w = (Inr b, w') \<Longrightarrow>
     fsLog w' = fsLog w @ [ReadFile p] \<and> fsReadFile h (fs w) p = Inr b \<and> fs w' = fs w"
  by (auto simp: FS_readFile_def split: if_splits)

lemma executeConversion_Inr:
  "executeConversion h p w = (Inr u, w') \<Longrightarrow>
     fsLog w' = fsLog w @ [Ccall p] \<and> main1 h (fs w) p = (0, fs w')"
  by (auto simp: executeConversion_def Let_def split: if_splits prod.splits)

lemma convertBinStaged_Inr:
  assumes "convertBinStaged h b bn tn ap w = (Inr out, w')"
  shows "fsLog w' = fsLog w @
           [WriteFile (''/working/'' @ bn) (Bin b),
            WriteFile ''/working/params.xml'' (ParamsXml (''/working/'' @ bn) (''/working/'' @ tn) ap),
            Ccall ''/working/params.xml'', ReadFile (''/working/'' @ tn)]
         \<and> fsReadFile h (fs w') (''/working/'' @ tn) = Inr out"
  using assms unfolding convertBinStaged_def createConversionParams_def
  by (elim andThen_InrE) (auto dest!: FS_writeFile_Inr FS_readFile_Inr executeConversion_Inr)

lemma saveWithFileSystemAPI_eq:
  "saveWithFileSystemAPI bs n w = (r, w') \<Longrightarrow>
     r = Inr () \<and> saved w' = saved w @ [(n, bs)] \<and> fsLog w' = fsLog w"
  by (auto simp: saveWithFileSystemAPI_def)

lemma binToCsv_Inr:
  assumes "binToCsv h b base outName w = (Inr r, w')"
  shows "\<exists>xlsxArray wb csvText.
           fsReadFile h (fs w') (''/working/'' @ base @ ''.xlsx'') = Inr xlsxArray
           \<and> xlsxReadArray h xlsxArray = Inr wb \<and> sheet_to_csv h (firstSheet wb) = Inr csvText
           \<and> r = \<lparr>outFileName = outName, data = BOM @ utf8Encode h csvText\<rparr>
           \<and> saved w' = saved w @ [(outName, BOM @ utf8Encode h csvText)]
           \<and> fsLog w' = fsLog w @
               [WriteFile (''/working/'' @ base @ ''.bin'') (Bin b),
                WriteFile ''/working/params.xml''
                  (ParamsXml (''/working/'' @ base @ ''.bin'') (''/working/'' @ base @ ''.xlsx'') []),
                Ccall ''/working/params.xml'', ReadFile (''/working/'' @ base @ ''.xlsx'')]"
  using assms unfolding binToCsv_def
proof (elim andThen_InrE)
  fix xlsxArray w1 u4 w2 wb w3 csvText w4 u5 w5
  assume st: "convertBinStaged h b (base @ ''.bin'') (base @ ''.xlsx'') [] w = (Inr xlsxArray, w1)"
    and lib: "loadXlsxLibrary h w1 = (Inr u4, w2)"
    and rd: "liftE (xlsxReadArray h xlsxArray) w2 = (Inr wb, w3)"
    and cs: "liftE (sheet_to_csv h (firstSheet wb)) w3 = (Inr csvText, w4)"
    and sv: "saveWithFileSystemAPI (BOM @ utf8Encode h csvText) outName w4 = (Inr u5, w5)"
    and fin: "succeed \<lparr>outFileName = outName, data = BOM @ utf8Encode h csvText\<rparr> w5 = (Inr r, w')"
  have w12: "w2 = w1" using lib by (auto simp: loadXlsxLibrary_def split: if_splits)
  have w23: "w3 = w2" and rd': "xlsxReadArray h xlsxArray = Inr wb" using rd by (auto dest: liftE_Inr)
  have w34: "w4 = w3" and cs': "sheet_to_csv h (firstSheet wb) = Inr csvText"
    using cs by (auto dest: liftE_Inr)
  have w5: "saved w5 = saved w4 @ [(outName, BOM @ utf8Encode h csvText)]" "fsLog w5 = fsLog w4"
    "fs w5 = fs w4"
    using sv by (auto simp: saveWithFileSystemAPI_def)
  have r: "r = \<lparr>outFileName = outName, data = BOM @ utf8Encode h csvText\<rparr>" "w' = w5"
    using fin by (auto dest: succeed_Inr)
  have s1: "saved w1 = saved w" using st keeps_saved_convertBinStaged by (rule keepsD [rotated])
  have l1: "fsLog w1 = fsLog w @
               [WriteFile (''/working/'' @ base @ ''.bin'') (Bin b),
                WriteFile ''/working/params.xml''
                  (ParamsXml (''/working/'' @ base @ ''.bin'') (''/working/'' @ base @ ''.xlsx'') []),
                Ccall ''/working/params.xml'', ReadFile (''/working/'' @ base @ ''.xlsx'')]"
    using convertBinStaged_Inr [OF st] by simp
  have f1: "fsReadFile h (fs w1) (''/working/'' @ base @ ''.xlsx'') = Inr xlsxArray"
    using convertBinStaged_Inr [OF st] by simp
  show ?thesis
    using rd' cs' r w5 s1 l1 f1 w12 w23 w34 by auto
qed

lemma convertBin_csv_Inr:
  assumes t: "toUpperCase t = ''CSV''"
    and ok: "convertBinToDocumentAndDownload h b orig (Some t) w = (Inr r, w')"
  shows "\<exists>w1. initialize h w = (Inr (), w1)
           \<and> binToCsv h b (sanitizedBaseOf orig) (sanitizedBaseOf orig @ ''.'' @ toLowerCase t) w1 = (Inr r, w')"
  using ok unfolding convertBinToDocumentAndDownload_def Let_def
proof (elim andThen_InrE)
  fix u w1
  assume i: "initialize h w = (Inr u, w1)"
    and body: "tryCatch
        (if toUpperCase (case Some t of None \<Rightarrow> ''DOCX'' | Some t \<Rightarrow> t) = ''CSV''
         then binToCsv h b (sanitizedBaseOf orig)
               (sanitizedBaseOf orig @ ''.'' @ toLowerCase (case Some t of None \<Rightarrow> ''DOCX'' | Some t \<Rightarrow> t))
         else binToOther h b (sanitizedBaseOf orig) (case Some t of None \<Rightarrow> ''DOCX'' | Some t \<Rightarrow> t)
               (sanitizedBaseOf orig @ ''.'' @ toLowerCase (case Some t of None \<Rightarrow> ''DOCX'' | Some t \<Rightarrow> t)))
        (\<lambda>error. throwE (BinConversionFailed error)) w1 = (Inr r, w')"
  from body have "binToCsv h b (sanitizedBaseOf orig) (sanitizedBaseOf orig @ ''.'' @ toLowerCase t) w1 = (Inr r, w')"
    using t by (auto dest: tryCatch_rethrow_Inr)
  with i show ?thesis by auto
qed


lemma BOM_take: "take 3 (BOM @ bs) = [0xef, 0xbb, 0xbf]"
  by (simp add: BOM_def)

text \<open>
  C9. When \<open>convertBinToDocumentAndDownload\<close> succeeds for a target that upper-cases to
  \<open>CSV\<close>, the bytes it returns and hands to the save step start with \<open>EF BB BF\<close>, and
  after them hold the encoding of the CSV text of one sheet: the sheet that the workbook
  read from the converter's XLSX output has under its first sheet name.
\<close>

theorem csv_save_starts_with_bom_and_takes_first_sheet:
  assumes t: "toUpperCase t = ''CSV''"
    and ok: "convertBinToDocumentAndDownload h binData originalFileName (Some t) w = (Inr r, w')"
  shows "take 3 (data r) = [0xef, 0xbb, 0xbf]
     \<and> (\<exists>xlsxArray wb csvText.
           fsReadFile h (fs w') (''/working/'' @ sanitizedBaseOf originalFileName @ ''.xlsx'') = Inr xlsxArray
           \<and> xlsxReadArray h xlsxArray = Inr wb
           \<and> sheet_to_csv h (firstSheet wb) = Inr csvText
           \<and> (\<forall>n ns. SheetNames wb = n # ns \<longrightarrow> firstSheet wb = map_of (Sheets wb) n)
           \<and> data r = [0xef, 0xbb, 0xbf] @ utf8Encode h csvText
           \<and> saved w' = saved w @ [(outFileName r, data r)])"
proof -
  from convertBin_csv_Inr [OF t ok] obtain w1 where i: "initialize h w = (Inr (), w1)"
    and b: "binToCsv h binData (sanitizedBaseOf originalFileName)
              (sanitizedBaseOf originalFileName @ ''.'' @ toLowerCase t) w1 = (Inr r, w')"
    by blast
  have s1: "saved w1 = saved w" using i keeps_saved_initialize by (rule keepsD [rotated])
  have fsh: "\<forall>n ns. SheetNames wb = n # ns \<longrightarrow> firstSheet wb = map_of (Sheets wb) n" for wb
    by (simp add: firstSheet_def)
  from binToCsv_Inr [OF b] s1 fsh show ?thesis
    by (auto simp: BOM_def)
qed

theorem csv_save_witness:
  "toUpperCase ''CSV'' = ''CSV''
   \<and> (\<exists>r w'. convertBinToDocumentAndDownload demoHost [1, 2, 3] (Some ''report.csv'') (Some ''CSV'')
                 (freshWorld []) = (Inr r, w')
         \<and> take 3 (data r) = [0xef, 0xbb, 0xbf]
         \<and> data r = [0xef, 0xbb, 0xbf, 0x61, 0x2c, 0x62])"
proof -
  have t: "toUpperCase ''CSV'' = ''CSV''" by code_simp
  have v: "fst (convertBinToDocumentAndDownload demoHost [1, 2, 3] (Some ''report.csv'') (Some ''CSV'')
                 (freshWorld []))
           = Inr \<lparr>outFileName = ''report.csv'', data = [0xef, 0xbb, 0xbf, 0x61, 0x2c, 0x62]\<rparr>"
    by code_simp
  then obtain w' where run: "convertBinToDocumentAndDownload demoHost [1, 2, 3] (Some ''report.csv'')
      (Some ''CSV'') (freshWorld []) = (Inr \<lparr>outFileName = ''report.csv'', data = [0xef, 0xbb, 0xbf, 0x61, 0x2c, 0x62]\<rparr>, w')"
    by (cases "convertBinToDocumentAndDownload demoHost [1, 2, 3] (Some ''report.csv'')
      (Some ''CSV'') (freshWorld [])") auto
  from csv_save_starts_with_bom_and_takes_first_sheet [OF t run] t run
  show ?thesis by auto
qed

lemma keepsOnThrow_saved_binToCsv: "keepsOnThrow saved (binToCsv h b base outName)"
proof -
  have last: "keepsOnThrow saved (andThen (saveWithFileSystemAPI bs outName) (\<lambda>u5. succeed x))" for bs and x :: BinConversionResult
    by (simp add: keepsOnThrow_def andThen_def saveWithFileSystemAPI_def succeed_def)
  show ?thesis
    unfolding binToCsv_def
    by (intro keepsOnThrow_andThen keeps_saved_convertBinStaged keeps_saved_loadXlsx keeps_liftE last)
qed

lemma keepsOnThrow_saved_binToOther: "keepsOnThrow saved (binToOther h b base t outName)"
proof -
  have last: "keepsOnThrow saved (andThen (saveWithFileSystemAPI bs outName) (\<lambda>u5. succeed x))" for bs and x :: BinConversionResult
    by (simp add: keepsOnThrow_def andThen_def saveWithFileSystemAPI_def succeed_def)
  show ?thesis
    unfolding binToOther_def
    by (intro keepsOnThrow_andThen keeps_saved_convertBinStaged last)
qed

lemma keepsOnThrow_saved_convertBin:
  "keepsOnThrow saved (convertBinToDocumentAndDownload h b orig target)"
  unfolding convertBinToDocumentAndDownload_def Let_def
  by (intro keepsOnThrow_andThen keeps_saved_initialize keepsOnThrow_rethrow)
    (simp add: keepsOnThrow_saved_binToCsv keepsOnThrow_saved_binToOther)

lemma targetFormatOf_csv:
  "endsWith (toLowerCase n) ''.csv'' \<Longrightarrow> targetFormatOf (Some n) fmt = Some ''CSV''"
  by (auto simp: targetFormatOf_def endsWith_def toLowerCase_def)

text \<open>
  C5. With a tracked file name that ends in \<open>.csv\<close> (in any case), a save event that
  carries data is converted with the target \<open>CSV\<close> whatever output format the editor
  reports. When the save succeeds, exactly one file is handed to the save step, named
  \<open>.csv\<close>, its bytes starting with the byte-order mark, and the converter was asked for
  the \<open>.xlsx\<close> file that the CSV was then made from; when it fails, no file is handed
  over.
\<close>

theorem save_of_csv_document_produces_csv:
  assumes tracked: "docFileName w = Some n" and csv: "endsWith (toLowerCase n) ''.csv''"
    and run: "handleSaveDocument h (SaveEvent (Some (Some bs, fmt))) w = (res, w')"
  shows "targetFormatOf (docFileName w) fmt = Some ''CSV''
     \<and> (res = Inr () \<longrightarrow>
          (\<exists>csvBytes w1. initialize h w = (Inr (), w1)
             \<and> saved w' = saved w @ [(sanitizedBaseOf (Some n) @ ''.csv'', csvBytes)]
             \<and> take 3 csvBytes = [0xef, 0xbb, 0xbf]
             \<and> fsLog w' = fsLog w1 @
                 [WriteFile (''/working/'' @ sanitizedBaseOf (Some n) @ ''.bin'') (Bin bs),
                  WriteFile ''/working/params.xml''
                    (ParamsXml (''/working/'' @ sanitizedBaseOf (Some n) @ ''.bin'')
                       (''/working/'' @ sanitizedBaseOf (Some n) @ ''.xlsx'') []),
                  Ccall ''/working/params.xml'',
                  ReadFile (''/working/'' @ sanitizedBaseOf (Some n) @ ''.xlsx'')]))
     \<and> (isl res \<longrightarrow> saved w' = saved w)
     \<and> endsWith (sanitizedBaseOf (Some n) @ ''.csv'') ''.csv''"
proof -
  have tf: "targetFormatOf (docFileName w) fmt = Some ''CSV''"
    using tracked csv by (simp add: targetFormatOf_csv)
  have up: "toUpperCase ''CSV'' = ''CSV''" by code_simp
  have lo: "toLowerCase ''CSV'' = ''csv''" by code_simp
  from run have run': "andThen (convertBinToDocumentAndDownload h bs (Some n) (Some ''CSV''))
      (\<lambda>r. notifySaved) w = (res, w')"
    using tf by (simp add: handleSaveDocument_def tracked)
  have ok: "\<exists>csvBytes w1. initialize h w = (Inr (), w1)
             \<and> saved w' = saved w @ [(sanitizedBaseOf (Some n) @ ''.csv'', csvBytes)]
             \<and> take 3 csvBytes = [0xef, 0xbb, 0xbf]
             \<and> fsLog w' = fsLog w1 @
                 [WriteFile (''/working/'' @ sanitizedBaseOf (Some n) @ ''.bin'') (Bin bs),
                  WriteFile ''/working/params.xml''
                    (ParamsXml (''/working/'' @ sanitizedBaseOf (Some n) @ ''.bin'')
                       (''/working/'' @ sanitizedBaseOf (Some n) @ ''.xlsx'') []),
                  Ccall ''/working/params.xml'',
                  ReadFile (''/working/'' @ sanitizedBaseOf (Some n) @ ''.xlsx'')]"
    if r: "res = Inr ()"
  proof -
    from run' r obtain cr w2 where c: "convertBinToDocumentAndDownload h bs (Some n) (Some ''CSV'') w = (Inr cr, w2)"
      and nfy: "notifySaved w2 = (Inr (), w')"
      by (auto elim: andThen_InrE)
    from convertBin_csv_Inr [OF up c] obtain w1 where i: "initialize h w = (Inr (), w1)"
      and b: "binToCsv h bs (sanitizedBaseOf (Some n)) (sanitizedBaseOf (Some n) @ ''.'' @ toLowerCase ''CSV'') w1 = (Inr cr, w2)"
      by blast
    have s1: "saved w1 = saved w" using i keeps_saved_initialize by (rule keepsD [rotated])
    have n2: "saved w' = saved w2" "fsLog w' = fsLog w2"
      using nfy by (auto simp: notifySaved_def split: if_splits)
    from binToCsv_Inr [OF b] s1 n2 i show ?thesis
      by (auto simp: lo BOM_def)
  qed
  have fail: "saved w' = saved w" if l: "isl res"
  proof (cases "convertBinToDocumentAndDownload h bs (Some n) (Some ''CSV'') w")
    case (Pair cr w2)
    show ?thesis
    proof (cases cr)
      case (Inl e)
      with Pair run' have w2: "w' = w2" by (simp add: andThen_def)
      from Pair Inl have c: "convertBinToDocumentAndDownload h bs (Some n) (Some ''CSV'') w = (Inl e, w2)"
        by simp
      have "saved w2 = saved w"
        using keepsOnThrow_saved_convertBin c by (rule keepsOnThrowD)
      with w2 show ?thesis by simp
    next
      case (Inr x)
      with Pair run' have "res = Inr ()" by (auto simp: andThen_def notifySaved_def)
      with l show ?thesis by simp
    qed
  qed
  from tf ok fail show ?thesis by (auto simp: endsWith_def)
qed


theorem save_of_csv_document_witness:
  "docFileName csvSession = Some ''Report.CSV''
   \<and> endsWith (toLowerCase ''Report.CSV'') ''.csv''
   \<and> c_oAscFileType2 257 = Some ''XLSX''
   \<and> targetFormatOf (docFileName csvSession) 257 = Some ''CSV''
   \<and> (\<exists>w'. handleSaveDocument demoHost (SaveEvent (Some (Some [1, 2, 3], 257))) csvSession = (Inr (), w')
          \<and> saved w' = [(''Report.csv'', [0xef, 0xbb, 0xbf, 0x61, 0x2c, 0x62])])"
proof -
  have a: "docFileName csvSession = Some ''Report.CSV''" by code_simp
  have b: "endsWith (toLowerCase ''Report.CSV'') ''.csv''" by code_simp
  have c: "c_oAscFileType2 257 = Some ''XLSX''" by code_simp
  have r: "fst (handleSaveDocument demoHost (SaveEvent (Some (Some [1, 2, 3], 257))) csvSession) = Inr ()"
    by code_simp
  have s: "saved (snd (handleSaveDocument demoHost (SaveEvent (Some (Some [1, 2, 3], 257))) csvSession))
      = [(''Report.csv'', [0xef, 0xbb, 0xbf, 0x61, 0x2c, 0x62])]"
    by code_simp
  obtain w' where run: "handleSaveDocument demoHost (SaveEvent (Some (Some [1, 2, 3], 257))) csvSession = (Inr (), w')"
    using r by (cases "handleSaveDocument demoHost (SaveEvent (Some (Some [1, 2, 3], 257))) csvSession") auto
  from save_of_csv_document_produces_csv [OF a b run] a b c run s
  show ?thesis by auto
qed

section \<open>Opening a CSV file: the path\<close>

lemma decodeCsv_Inr:
  assumes "decodeCsv h d w = (Inr csvText, w')"
  shows "w' = w \<and>
     (if 3 \<le> length d \<and> take 3 d = BOM then utf8Decode h (drop 3 d) = Some csvText
      else csvText = (case utf8Decode h d of Some t \<Rightarrow> t | None \<Rightarrow> latin1Decode h d))"
  using assms
  by (auto simp: decodeCsv_def succeed_def throwE_def split: if_splits option.splits)

lemma convertCsvToXlsx_Inr:
  assumes "convertCsvToXlsx h d fName w = (Inr xf, w')"
  shows "w' = w \<and> name xf = replaceCsvSuffix fName
     \<and> (\<exists>csvText wb.
           (if 3 \<le> length d \<and> take 3 d = BOM then utf8Decode h (drop 3 d) = Some csvText
            else csvText = (case utf8Decode h d of Some t \<Rightarrow> t | None \<Rightarrow> latin1Decode h d))
           \<and> xlsxReadText h csvText = Inr wb \<and> xlsxWrite h wb = Inr (arrayBuffer xf))"
proof -
  from assms have "andThen (loadXlsxLibrary h) (\<lambda>u.
        andThen (decodeCsv h d) (\<lambda>csvText.
        andThen (liftE (xlsxReadText h csvText)) (\<lambda>wb.
        andThen (liftE (xlsxWrite h wb)) (\<lambda>xlsxBuffer.
        succeed \<lparr>name = replaceCsvSuffix fName,
                 mimeType = ''application/vnd.openxmlformats-officedocument.spreadsheetml.sheet'',
                 arrayBuffer = xlsxBuffer\<rparr>)))) w = (Inr xf, w')"
    unfolding convertCsvToXlsx_def by (rule tryCatch_rethrow_Inr)
  then show ?thesis
  proof (elim andThen_InrE)
    fix u w1 csvText w2 wb w3 xlsxBuffer w4
    assume lib: "loadXlsxLibrary h w = (Inr u, w1)"
      and dec: "decodeCsv h d w1 = (Inr csvText, w2)"
      and rd: "liftE (xlsxReadText h csvText) w2 = (Inr wb, w3)"
      and wr: "liftE (xlsxWrite h wb) w3 = (Inr xlsxBuffer, w4)"
      and fin: "succeed \<lparr>name = replaceCsvSuffix fName,
                 mimeType = ''application/vnd.openxmlformats-officedocument.spreadsheetml.sheet'',
                 arrayBuffer = xlsxBuffer\<rparr> w4 = (Inr xf, w')"
    have w1: "w1 = w" using lib by (auto simp: loadXlsxLibrary_def split: if_splits)
    have w2: "w2 = w1" and dc: "if 3 \<le> length d \<and> take 3 d = BOM then utf8Decode h (drop 3 d) = Some csvText
      else csvText = (case utf8Decode h d of Some t \<Rightarrow> t | None \<Rightarrow> latin1Decode h d)"
      using decodeCsv_Inr [OF dec] by simp_all
    have w3: "w3 = w2" and r: "xlsxReadText h csvText = Inr wb" using rd by (auto dest: liftE_Inr)
    have w4: "w4 = w3" and x: "xlsxWrite h wb = Inr xlsxBuffer" using wr by (auto dest: liftE_Inr)
    have xf: "xf = \<lparr>name = replaceCsvSuffix fName,
                 mimeType = ''application/vnd.openxmlformats-officedocument.spreadsheetml.sheet'',
                 arrayBuffer = xlsxBuffer\<rparr>" and w': "w' = w4"
      using fin by (auto dest: succeed_Inr)
    have a: "w' = w" using w1 w2 w3 w4 w' by simp
    have b: "name xf = replaceCsvSuffix fName" and c: "arrayBuffer xf = xlsxBuffer" using xf by simp_all
    from dc r x c have "\<exists>csvText wb.
           (if 3 \<le> length d \<and> take 3 d = BOM then utf8Decode h (drop 3 d) = Some csvText
            else csvText = (case utf8Decode h d of Some t \<Rightarrow> t | None \<Rightarrow> latin1Decode h d))
           \<and> xlsxReadText h csvText = Inr wb \<and> xlsxWrite h wb = Inr (arrayBuffer xf)"
      by blast
    with a b show ?thesis by simp
  qed
qed

lemma stageAndConvert_Inr:
  assumes "stageAndConvert h sn d w = (Inr out, w')"
  shows "fsLog w' = fsLog w @
           [WriteFile (''/working/'' @ sn) (Bin d),
            WriteFile ''/working/params.xml''
              (ParamsXml (''/working/'' @ sn) (''/working/'' @ sn @ ''.bin'') []),
            Ccall ''/working/params.xml'', ReadFile (''/working/'' @ sn @ ''.bin'')]
         \<and> fsReadFile h (fs w') (''/working/'' @ sn @ ''.bin'') = Inr out"
  using assms unfolding stageAndConvert_def createConversionParams_def Let_def
  by (elim andThen_InrE) (auto dest!: FS_writeFile_Inr FS_readFile_Inr executeConversion_Inr)

lemma convertStaged_Inr:
  assumes "convertStaged h sn d rn dt w = (Inr r, w')"
  shows "\<exists>w2. stageAndConvert h sn d w = (Inr (bin r), w2) \<and> readMediaFiles h w2 = (Inr (media r), w')"
  using assms unfolding convertStaged_def
  by (elim andThen_InrE) (auto dest!: succeed_Inr)

lemma convertCsvDocument_Inr:
  assumes "convertCsvDocument h d fName dt w = (Inr r, w')"
  shows "d \<noteq> [] \<and> (\<exists>xf. convertCsvToXlsx h d fName w = (Inr xf, w)
      \<and> convertStaged h (sanitizeFileName (name xf)) (arrayBuffer xf) (sanitizeFileName fName) dt w
          = (Inr r, w'))"
proof -
  from assms have ne: "d \<noteq> []"
    by (auto simp: convertCsvDocument_def throwE_def split: if_splits)
  with assms have "andThen (convertCsvToXlsx h d fName) (\<lambda>xlsxFile.
              convertStaged h (sanitizeFileName (name xlsxFile)) (arrayBuffer xlsxFile)
                (sanitizeFileName fName) dt) w = (Inr r, w')"
    by (auto simp: convertCsvDocument_def dest: tryCatch_rethrow_Inr)
  then obtain xf w1 where x: "convertCsvToXlsx h d fName w = (Inr xf, w1)"
    and s: "convertStaged h (sanitizeFileName (name xf)) (arrayBuffer xf) (sanitizeFileName fName) dt w1
          = (Inr r, w')"
    by (elim andThen_InrE)
  from convertCsvToXlsx_Inr [OF x] have "w1 = w" by simp
  with ne x s show ?thesis by auto
qed

lemma convertDocument_csv_Inr:
  assumes csv: "toLowerCase (fileExtOf h file) = ''csv''"
    and ok: "convertDocument h file w = (Inr r, w')"
  shows "\<exists>w1. initialize h w = (Inr (), w1)
     \<and> convertCsvDocument h (arrayBuffer file) (name file) (Known DocCell) w1 = (Inr r, w')"
  using ok unfolding convertDocument_def
proof (elim andThen_InrE)
  fix u w1 dt w2
  assume i: "initialize h w = (Inr u, w1)"
    and dt: "liftE (getDocumentType (fileExtOf h file)) w1 = (Inr dt, w2)"
    and body: "tryCatch
       (if toLowerCase (fileExtOf h file) = ''csv''
        then convertCsvDocument h (arrayBuffer file) (name file) dt
        else convertStaged h (sanitizeFileName (name file)) (arrayBuffer file)
               (sanitizeFileName (name file)) dt)
       (\<lambda>error. throwE (DocumentConversionFailed error)) w2 = (Inr r, w')"
  from dt have dt': "dt = Known DocCell" and w2: "w2 = w1"
    using getDocumentType_csv [OF csv] by (auto dest!: liftE_Inr)
  from body have "convertCsvDocument h (arrayBuffer file) (name file) dt w2 = (Inr r, w')"
    using csv by (auto dest: tryCatch_rethrow_Inr)
  with i dt' w2 show ?thesis by auto
qed

text \<open>
  C7. The claim is that a CSV file opened by \<open>convertDocument\<close> comes back under its
  sanitised original name, ending in \<open>.csv\<close> and not the synthesised XLSX name, with the
  type \<open>cell\<close>. The extension is resolved from the MIME type first, so a CSV file need
  not be named \<open>.csv\<close>. What holds for a file whose resolved extension is \<open>csv\<close>, when
  \<open>convertDocument\<close> succeeds: the result carries the sanitised original name and the
  type \<open>cell\<close>; the file was not empty; its text, decoded without a byte-order mark,
  was read by the library into a workbook, that written as XLSX bytes, and those bytes
  staged under the sanitised name with a final \<open>.csv\<close> replaced by \<open>.xlsx\<close> and run
  through the converter, whose output is the result's \<open>bin\<close>; and when the original
  name ends in \<open>.csv\<close> (in any case), so does the result's name, which then differs
  from the staged one.
\<close>

theorem convertDocument_csv_result_and_path:
  assumes csv: "toLowerCase (fileExtOf h file) = ''csv''"
    and ok: "convertDocument h file w = (Inr r, w')"
  shows "fileName r = sanitizeFileName (name file) \<and> docType r = Known DocCell
     \<and> arrayBuffer file \<noteq> []
     \<and> (\<exists>csvText wb xlsxBuffer w1 w2.
           initialize h w = (Inr (), w1)
           \<and> (if 3 \<le> length (arrayBuffer file) \<and> take 3 (arrayBuffer file) = BOM
               then utf8Decode h (drop 3 (arrayBuffer file)) = Some csvText
               else csvText = (case utf8Decode h (arrayBuffer file) of
                                 Some t \<Rightarrow> t | None \<Rightarrow> latin1Decode h (arrayBuffer file)))
           \<and> xlsxReadText h csvText = Inr wb \<and> xlsxWrite h wb = Inr xlsxBuffer
           \<and> fsLog w2 = fsLog w1 @
               [WriteFile (''/working/'' @ sanitizeFileName (replaceCsvSuffix (name file))) (Bin xlsxBuffer),
                WriteFile ''/working/params.xml''
                  (ParamsXml (''/working/'' @ sanitizeFileName (replaceCsvSuffix (name file)))
                     (''/working/'' @ sanitizeFileName (replaceCsvSuffix (name file)) @ ''.bin'') []),
                Ccall ''/working/params.xml'',
                ReadFile (''/working/'' @ sanitizeFileName (replaceCsvSuffix (name file)) @ ''.bin'')]
           \<and> fsReadFile h (fs w2)
                 (''/working/'' @ sanitizeFileName (replaceCsvSuffix (name file)) @ ''.bin'') = Inr (bin r)
           \<and> readMediaFiles h w2 = (Inr (media r), w'))
     \<and> (endsWith (toLowerCase (name file)) ''.csv'' \<longrightarrow>
          endsWith (toLowerCase (fileName r)) ''.csv''
          \<and> fileName r \<noteq> sanitizeFileName (replaceCsvSuffix (name file)))"
proof -
  let ?staged = "sanitizeFileName (replaceCsvSuffix (name file))"
  from convertDocument_csv_Inr [OF csv ok] obtain w1 where i: "initialize h w = (Inr (), w1)"
    and c: "convertCsvDocument h (arrayBuffer file) (name file) (Known DocCell) w1 = (Inr r, w')"
    by blast
  have nm: "fileName r = sanitizeFileName (name file) \<and> docType r = Known DocCell"
    using c by (rule convertCsvDocument_result)
  from convertCsvDocument_Inr [OF c] obtain xf where ne: "arrayBuffer file \<noteq> []"
    and x: "convertCsvToXlsx h (arrayBuffer file) (name file) w1 = (Inr xf, w1)"
    and s: "convertStaged h (sanitizeFileName (name xf)) (arrayBuffer xf)
              (sanitizeFileName (name file)) (Known DocCell) w1 = (Inr r, w')"
    by blast
  from convertCsvToXlsx_Inr [OF x] obtain csvText wb where xn: "name xf = replaceCsvSuffix (name file)"
    and dc: "if 3 \<le> length (arrayBuffer file) \<and> take 3 (arrayBuffer file) = BOM
               then utf8Decode h (drop 3 (arrayBuffer file)) = Some csvText
               else csvText = (case utf8Decode h (arrayBuffer file) of
                                 Some t \<Rightarrow> t | None \<Rightarrow> latin1Decode h (arrayBuffer file))"
    and rd: "xlsxReadText h csvText = Inr wb" and wr: "xlsxWrite h wb = Inr (arrayBuffer xf)"
    by blast
  from convertStaged_Inr [OF s] obtain w2 where
    st: "stageAndConvert h (sanitizeFileName (name xf)) (arrayBuffer xf) w1 = (Inr (bin r), w2)"
    and md: "readMediaFiles h w2 = (Inr (media r), w')"
    by blast
  note lg = stageAndConvert_Inr [OF st, unfolded xn]
  have path: "\<exists>csvText wb xlsxBuffer w1 w2.
           initialize h w = (Inr (), w1)
           \<and> (if 3 \<le> length (arrayBuffer file) \<and> take 3 (arrayBuffer file) = BOM
               then utf8Decode h (drop 3 (arrayBuffer file)) = Some csvText
               else csvText = (case utf8Decode h (arrayBuffer file) of
                                 Some t \<Rightarrow> t | None \<Rightarrow> latin1Decode h (arrayBuffer file)))
           \<and> xlsxReadText h csvText = Inr wb \<and> xlsxWrite h wb = Inr xlsxBuffer
           \<and> fsLog w2 = fsLog w1 @
               [WriteFile (''/working/'' @ ?staged) (Bin xlsxBuffer),
                WriteFile ''/working/params.xml''
                  (ParamsXml (''/working/'' @ ?staged) (''/working/'' @ ?staged @ ''.bin'') []),
                Ccall ''/working/params.xml'',
                ReadFile (''/working/'' @ ?staged @ ''.bin'')]
           \<and> fsReadFile h (fs w2) (''/working/'' @ ?staged @ ''.bin'') = Inr (bin r)
           \<and> readMediaFiles h w2 = (Inr (media r), w')"
    apply (rule exI [of _ csvText], rule exI [of _ wb], rule exI [of _ "arrayBuffer xf"])
    apply (rule exI [of _ w1], rule exI [of _ w2])
    using i dc rd wr lg md by (intro conjI) simp_all
  have sfx: "endsWith (toLowerCase (name file)) ''.csv'' \<longrightarrow>
          endsWith (toLowerCase (fileName r)) ''.csv''
          \<and> fileName r \<noteq> ?staged"
    using nm sanitize_csv_name [of "name file"] by simp
  from nm ne path sfx show ?thesis by (intro conjI) simp_all
qed

theorem convertDocument_csv_witness:
  "toLowerCase (fileExtOf demoHost reportCsv) = ''csv''
   \<and> (\<exists>r w'. convertDocument demoHost reportCsv (freshWorld []) = (Inr r, w')
         \<and> fileName r = ''report.csv'' \<and> docType r = Known DocCell
         \<and> sanitizeFileName (replaceCsvSuffix (name reportCsv)) = ''report.xlsx'')
   \<and> fsLog (snd (convertDocument demoHost reportCsv readyWorld))
       = [WriteFile ''/working/report.xlsx'' (Bin [0x50, 0x4b, 0x03, 0x04]),
          WriteFile ''/working/params.xml''
            (ParamsXml ''/working/report.xlsx'' ''/working/report.xlsx.bin'' []),
          Ccall ''/working/params.xml'', ReadFile ''/working/report.xlsx.bin'',
          Readdir ''/working/media/'']"
proof -
  have ext: "toLowerCase (fileExtOf demoHost reportCsv) = ''csv''" by code_simp
  have "\<not> isl (fst (convertDocument demoHost reportCsv (freshWorld [])))" by code_simp
  then obtain r w' where run: "convertDocument demoHost reportCsv (freshWorld []) = (Inr r, w')"
    by (cases "convertDocument demoHost reportCsv (freshWorld [])"; cases "fst (convertDocument demoHost reportCsv (freshWorld []))") auto
  have nm: "sanitizeFileName (name reportCsv) = ''report.csv''" by code_simp
  have x: "sanitizeFileName (replaceCsvSuffix (name reportCsv)) = ''report.xlsx''" by code_simp
  have lg: "fsLog (snd (convertDocument demoHost reportCsv readyWorld))
       = [WriteFile ''/working/report.xlsx'' (Bin [0x50, 0x4b, 0x03, 0x04]),
          WriteFile ''/working/params.xml''
            (ParamsXml ''/working/report.xlsx'' ''/working/report.xlsx.bin'' []),
          Ccall ''/working/params.xml'', ReadFile ''/working/report.xlsx.bin'',
          Readdir ''/working/media/'']" by code_simp
  from convertDocument_csv_result_and_path [OF ext run]
  have "fileName r = sanitizeFileName (name reportCsv) \<and> docType r = Known DocCell"
    by simp
  with nm have "fileName r = ''report.csv'' \<and> docType r = Known DocCell" by simp
  with run x have "\<exists>r w'. convertDocument demoHost reportCsv (freshWorld []) = (Inr r, w')
         \<and> fileName r = ''report.csv'' \<and> docType r = Known DocCell
         \<and> sanitizeFileName (replaceCsvSuffix (name reportCsv)) = ''report.xlsx''"
    by blast
  with ext lg show ?thesis by (intro conjI)
qed

text \<open>The claim fails as stated: \<open>data.txt\<close> of type \<open>text/csv\<close> is opened as CSV, and the
  result's name is \<open>data.txt\<close>, which does not end in \<open>.csv\<close> and is the name the
  synthesised XLSX bytes were staged under.\<close>

theorem convertDocument_csv_counterexample:
  "toLowerCase (fileExtOf demoHost dataTxt) = ''csv''
   \<and> fst (convertDocument demoHost dataTxt readyWorld)
       = Inr \<lparr>fileName = ''data.txt'', docType = Known DocCell, bin = [0x50, 0x4b, 0x03, 0x04],
              media = []\<rparr>
   \<and> \<not> endsWith (toLowerCase ''data.txt'') ''.csv''
   \<and> sanitizeFileName (replaceCsvSuffix (name dataTxt)) = ''data.txt''
   \<and> fsLog (snd (convertDocument demoHost dataTxt readyWorld))
       = [WriteFile ''/working/data.txt'' (Bin [0x50, 0x4b, 0x03, 0x04]),
          WriteFile ''/working/params.xml''
            (ParamsXml ''/working/data.txt'' ''/working/data.txt.bin'' []),
          Ccall ''/working/params.xml'', ReadFile ''/working/data.txt.bin'',
          Readdir ''/working/media/'']"
  by code_simp


section \<open>Media extraction\<close>

lemma readMediaFile_eq:
  assumes "x2tModule w"
  shows "readMediaFile h f m w =
     (case fsReadFile h (fs w) (''/working/media/'' @ f) of
        Inl e \<Rightarrow> (Inr m, w\<lparr>fsLog := fsLog w @ [ReadFile (''/working/media/'' @ f)]\<rparr>)
      | Inr b \<Rightarrow>
          (Inr (AList.update (''media/'' @ f) (length (objectUrls w)) m),
           w\<lparr>fsLog := fsLog w @ [ReadFile (''/working/media/'' @ f)],
              objectUrls := objectUrls w @ [Blob b (Mime [])]\<rparr>))"
  using assms
  by (simp add: readMediaFile_def tryCatch_def andThen_def FS_readFile_def createObjectURL_def
      succeed_def split: sum.splits)

text \<open>What the loop adds to the map \<open>m\<close> in a state \<open>w\<close>.\<close>

lemma forEachMedia_inv:
  assumes "x2tModule w"
  shows "\<exists>m' w'. forEachMedia h files m w = (Inr m', w')
     \<and> fs w' = fs w \<and> x2tModule w'
     \<and> (distinct (map fst m) \<longrightarrow> distinct (map fst m'))
     \<and> fst ` set m' = fst ` set m \<union>
          {''media/'' @ f | f. f \<in> set files \<and> \<not> isl (fsReadFile h (fs w) (''/working/media/'' @ f))}
     \<and> (\<exists>new. objectUrls w' = objectUrls w @ new)
     \<and> (\<forall>k u. map_of m' k = Some u \<longrightarrow>
           map_of m k = Some u \<or>
           (\<exists>f b. f \<in> set files \<and> k = ''media/'' @ f
              \<and> fsReadFile h (fs w) (''/working/media/'' @ f) = Inr b
              \<and> u < length (objectUrls w') \<and> objectUrls w' ! u = Blob b (Mime [])))"
  using assms
proof (induction files arbitrary: m w)
  case Nil
  then show ?case by (simp add: succeed_def)
next
  case (Cons f files)
  let ?p = "''/working/media/'' @ f"
  show ?case
  proof (cases "fsReadFile h (fs w) ?p")
    case (Inl e)
    let ?w1 = "w\<lparr>fsLog := fsLog w @ [ReadFile ?p]\<rparr>"
    have step: "readMediaFile h f m w = (Inr m, ?w1)"
      using Cons.prems Inl by (simp add: readMediaFile_eq)
    have m1: "x2tModule ?w1" using Cons.prems by simp
    from Cons.IH [OF m1, of m] obtain m' w' where
      r: "forEachMedia h files m ?w1 = (Inr m', w')" and f': "fs w' = fs w" and x': "x2tModule w'"
      and d': "distinct (map fst m) \<longrightarrow> distinct (map fst m')"
      and k': "fst ` set m' = fst ` set m \<union>
          {''media/'' @ f | f. f \<in> set files \<and> \<not> isl (fsReadFile h (fs w) (''/working/media/'' @ f))}"
      and o': "\<exists>new. objectUrls w' = objectUrls w @ new"
      and v': "\<forall>k u. map_of m' k = Some u \<longrightarrow>
           map_of m k = Some u \<or>
           (\<exists>f b. f \<in> set files \<and> k = ''media/'' @ f
              \<and> fsReadFile h (fs w) (''/working/media/'' @ f) = Inr b
              \<and> u < length (objectUrls w') \<and> objectUrls w' ! u = Blob b (Mime []))"
      by auto
    have run: "forEachMedia h (f # files) m w = (Inr m', w')"
      using step r by (simp add: andThen_def)
    have keys: "fst ` set m' = fst ` set m \<union>
          {''media/'' @ g | g. g \<in> set (f # files) \<and> \<not> isl (fsReadFile h (fs w) (''/working/media/'' @ g))}"
      using k' Inl by auto
    have vals: "\<forall>k u. map_of m' k = Some u \<longrightarrow>
           map_of m k = Some u \<or>
           (\<exists>g b. g \<in> set (f # files) \<and> k = ''media/'' @ g
              \<and> fsReadFile h (fs w) (''/working/media/'' @ g) = Inr b
              \<and> u < length (objectUrls w') \<and> objectUrls w' ! u = Blob b (Mime []))"
      using v' by (meson list.set_intros(2))
    show ?thesis using run f' x' d' keys o' vals by blast
  next
    case (Inr b)
    let ?u = "length (objectUrls w)"
    let ?m1 = "AList.update (''media/'' @ f) ?u m"
    let ?w1 = "w\<lparr>fsLog := fsLog w @ [ReadFile ?p], objectUrls := objectUrls w @ [Blob b (Mime [])]\<rparr>"
    have step: "readMediaFile h f m w = (Inr ?m1, ?w1)"
      using Cons.prems Inr by (simp add: readMediaFile_eq)
    have m1: "x2tModule ?w1" using Cons.prems by simp
    from Cons.IH [OF m1, of ?m1] obtain m' w' where
      r: "forEachMedia h files ?m1 ?w1 = (Inr m', w')" and f': "fs w' = fs w" and x': "x2tModule w'"
      and d': "distinct (map fst ?m1) \<longrightarrow> distinct (map fst m')"
      and k': "fst ` set m' = fst ` set ?m1 \<union>
          {''media/'' @ f | f. f \<in> set files \<and> \<not> isl (fsReadFile h (fs w) (''/working/media/'' @ f))}"
      and o': "\<exists>new. objectUrls w' = (objectUrls w @ [Blob b (Mime [])]) @ new"
      and v': "\<forall>k u. map_of m' k = Some u \<longrightarrow>
           map_of ?m1 k = Some u \<or>
           (\<exists>f b. f \<in> set files \<and> k = ''media/'' @ f
              \<and> fsReadFile h (fs w) (''/working/media/'' @ f) = Inr b
              \<and> u < length (objectUrls w') \<and> objectUrls w' ! u = Blob b (Mime []))"
      by auto
    have run: "forEachMedia h (f # files) m w = (Inr m', w')"
      using step r by (simp add: andThen_def)
    have dist: "distinct (map fst m) \<longrightarrow> distinct (map fst m')"
      using d' by (simp add: distinct_update)
    have k1: "fst ` set ?m1 = insert (''media/'' @ f) (fst ` set m)"
      by (simp add: dom_update)
    have k2: "{''media/'' @ g | g. g \<in> set (f # files) \<and> \<not> isl (fsReadFile h (fs w) (''/working/media/'' @ g))}
        = insert (''media/'' @ f)
            {''media/'' @ g | g. g \<in> set files \<and> \<not> isl (fsReadFile h (fs w) (''/working/media/'' @ g))}"
      using Inr by auto
    have keys: "fst ` set m' = fst ` set m \<union>
          {''media/'' @ g | g. g \<in> set (f # files) \<and> \<not> isl (fsReadFile h (fs w) (''/working/media/'' @ g))}"
      unfolding k2 k' k1 by blast
    from o' obtain new where new: "objectUrls w' = (objectUrls w @ [Blob b (Mime [])]) @ new" by blast
    then have o: "\<exists>new. objectUrls w' = objectUrls w @ new" by simp
    have here: "?u < length (objectUrls w')" "objectUrls w' ! ?u = Blob b (Mime [])"
      using new by (simp_all add: nth_append)
    have vals: "\<forall>k u. map_of m' k = Some u \<longrightarrow>
           map_of m k = Some u \<or>
           (\<exists>g b. g \<in> set (f # files) \<and> k = ''media/'' @ g
              \<and> fsReadFile h (fs w) (''/working/media/'' @ g) = Inr b
              \<and> u < length (objectUrls w') \<and> objectUrls w' ! u = Blob b (Mime []))"
    proof (intro allI impI)
      fix k u
      assume ku: "map_of m' k = Some u"
      from v' ku consider (old) "map_of ?m1 k = Some u"
        | (new) "\<exists>f b. f \<in> set files \<and> k = ''media/'' @ f
              \<and> fsReadFile h (fs w) (''/working/media/'' @ f) = Inr b
              \<and> u < length (objectUrls w') \<and> objectUrls w' ! u = Blob b (Mime [])"
        by blast
      then show "map_of m k = Some u \<or>
           (\<exists>g b. g \<in> set (f # files) \<and> k = ''media/'' @ g
              \<and> fsReadFile h (fs w) (''/working/media/'' @ g) = Inr b
              \<and> u < length (objectUrls w') \<and> objectUrls w' ! u = Blob b (Mime []))"
      proof cases
        case old
        show ?thesis
        proof (cases "k = ''media/'' @ f")
          case True
          with old have "u = ?u" by (simp add: update_conv')
          with True Inr here show ?thesis by auto
        next
          case False
          with old have "map_of m k = Some u" by (simp add: update_conv')
          then show ?thesis by simp
        qed
      next
        case new
        then obtain g c where g: "g \<in> set files" "k = ''media/'' @ g"
          "fsReadFile h (fs w) (''/working/media/'' @ g) = Inr c"
          "u < length (objectUrls w')" "objectUrls w' ! u = Blob c (Mime [])"
          by blast
        then have "g \<in> set (f # files)" by simp
        with g show ?thesis by blast
      qed
    qed
    show ?thesis using run f' x' dist keys o vals by blast
  qed
qed


lemma readMediaFiles_listing:
  assumes mod: "x2tModule w" and ls: "fsReaddir h (fs w) ''/working/media/'' = Inr files"
  shows "readMediaFiles h w =
     forEachMedia h (filter (\<lambda>file. file \<noteq> ''.'' \<and> file \<noteq> ''..'') files) []
       (w\<lparr>fsLog := fsLog w @ [Readdir ''/working/media/'']\<rparr>)"
proof -
  let ?w1 = "w\<lparr>fsLog := fsLog w @ [Readdir ''/working/media/'']\<rparr>"
  have "x2tModule ?w1" using mod by simp
  from forEachMedia_inv [OF this, of h "filter (\<lambda>file. file \<noteq> ''.'' \<and> file \<noteq> ''..'') files" "[]"]
  obtain m' w' where "forEachMedia h (filter (\<lambda>file. file \<noteq> ''.'' \<and> file \<noteq> ''..'') files) [] ?w1 = (Inr m', w')"
    by blast
  then show ?thesis
    using mod ls by (simp add: readMediaFiles_def tryCatch_def andThen_def FS_readdir_def)
qed

lemma readMediaFiles_total: "\<exists>m w'. readMediaFiles h w = (Inr m, w')"
proof (cases "x2tModule w")
  case False
  then show ?thesis by (simp add: readMediaFiles_def)
next
  case True
  show ?thesis
  proof (cases "fsReaddir h (fs w) ''/working/media/''")
    case (Inl e)
    then show ?thesis
      using True by (simp add: readMediaFiles_def tryCatch_def andThen_def FS_readdir_def succeed_def)
  next
    case (Inr files)
    have "x2tModule (w\<lparr>fsLog := fsLog w @ [Readdir ''/working/media/'']\<rparr>)" using True by simp
    from forEachMedia_inv [OF this] show ?thesis
      unfolding readMediaFiles_listing [OF True Inr] by blast
  qed
qed

lemma card_media_keys:
  assumes d: "distinct names" and b: "bad \<in> set names"
    and rd: "\<forall>f \<in> set names. (f \<noteq> bad) = P f"
  shows "card {''media/'' @ f | f. f \<in> set names \<and> P f} = length names - 1"
proof -
  have "{''media/'' @ f | f. f \<in> set names \<and> P f} = (\<lambda>f. ''media/'' @ f) ` (set names - {bad})"
    using rd by auto
  moreover have "inj_on (\<lambda>f. ''media/'' @ f) (set names - {bad})"
    by (simp add: inj_on_def)
  ultimately have "card {''media/'' @ f | f. f \<in> set names \<and> P f} = card (set names - {bad})"
    by (simp add: card_image)
  also have "\<dots> = card (set names) - 1" using b by simp
  also have "\<dots> = length names - 1" using d by (simp add: distinct_card)
  finally show ?thesis .
qed

text \<open>
  C8. With the module present, \<open>readMediaFiles\<close> returns an empty map when the media
  directory cannot be listed. When it can, the map has one entry \<open>media/<name>\<close> for
  each listed name other than \<open>.\<close> and \<open>..\<close> whose file can be read, and no other; each
  entry is the object URL of a blob holding that file's bytes; so with distinct names of
  which exactly one cannot be read, the map has one entry less than there are names.
  \<open>readMediaFiles\<close> never throws: when the staging and the converter run of
  \<open>convertDocument\<close> succeed, the conversion succeeds with whatever map the media gave.
\<close>

theorem readMediaFiles_resilient:
  assumes mod: "x2tModule w"
  shows "(\<forall>e. fsReaddir h (fs w) ''/working/media/'' = Inl e \<longrightarrow> fst (readMediaFiles h w) = Inr [])
    \<and> (\<forall>files. fsReaddir h (fs w) ''/working/media/'' = Inr files \<longrightarrow>
         (\<exists>m w'. readMediaFiles h w = (Inr m, w') \<and> distinct (map fst m)
            \<and> fst ` set m =
                {''media/'' @ f | f. f \<in> set files \<and> f \<noteq> ''.'' \<and> f \<noteq> ''..''
                   \<and> \<not> isl (fsReadFile h (fs w) (''/working/media/'' @ f))}
            \<and> (\<forall>k u. map_of m k = Some u \<longrightarrow>
                  (\<exists>f b. k = ''media/'' @ f \<and> fsReadFile h (fs w) (''/working/media/'' @ f) = Inr b
                     \<and> u < length (objectUrls w') \<and> objectUrls w' ! u = Blob b (Mime [])))
            \<and> (\<forall>bad. distinct files \<and> bad \<in> set files \<and> bad \<noteq> ''.'' \<and> bad \<noteq> ''..''
                  \<and> (\<forall>f \<in> set files. f \<noteq> ''.'' \<and> f \<noteq> ''..'' \<longrightarrow>
                         (f \<noteq> bad) = (\<not> isl (fsReadFile h (fs w) (''/working/media/'' @ f))))
                  \<longrightarrow> length m = length (filter (\<lambda>f. f \<noteq> ''.'' \<and> f \<noteq> ''..'') files) - 1)))
    \<and> (\<forall>sn d rn dt result w1. stageAndConvert h sn d w = (Inr result, w1) \<longrightarrow>
         (\<exists>m w2. readMediaFiles h w1 = (Inr m, w2)
            \<and> convertStaged h sn d rn dt w
                = (Inr \<lparr>fileName = rn, docType = dt, bin = result, media = m\<rparr>, w2)))"
proof (intro conjI allI impI)
  fix e
  assume "fsReaddir h (fs w) ''/working/media/'' = Inl e"
  then show "fst (readMediaFiles h w) = Inr []"
    using mod by (simp add: readMediaFiles_def tryCatch_def andThen_def FS_readdir_def succeed_def)
next
  fix files
  assume ls: "fsReaddir h (fs w) ''/working/media/'' = Inr files"
  let ?names = "filter (\<lambda>file. file \<noteq> ''.'' \<and> file \<noteq> ''..'') files"
  let ?w1 = "w\<lparr>fsLog := fsLog w @ [Readdir ''/working/media/'']\<rparr>"
  have m1: "x2tModule ?w1" using mod by simp
  from forEachMedia_inv [OF m1, of h ?names "[]"] obtain m w' where
    r: "forEachMedia h ?names [] ?w1 = (Inr m, w')"
    and dist: "distinct (map fst m)"
    and keys: "fst ` set m =
        {''media/'' @ f | f. f \<in> set ?names \<and> \<not> isl (fsReadFile h (fs w) (''/working/media/'' @ f))}"
    and vals: "\<forall>k u. map_of m k = Some u \<longrightarrow>
           (\<exists>f b. f \<in> set ?names \<and> k = ''media/'' @ f
              \<and> fsReadFile h (fs w) (''/working/media/'' @ f) = Inr b
              \<and> u < length (objectUrls w') \<and> objectUrls w' ! u = Blob b (Mime []))"
    by auto
  have run: "readMediaFiles h w = (Inr m, w')"
    using r by (simp add: readMediaFiles_listing [OF mod ls])
  have keys': "fst ` set m =
      {''media/'' @ f | f. f \<in> set files \<and> f \<noteq> ''.'' \<and> f \<noteq> ''..''
         \<and> \<not> isl (fsReadFile h (fs w) (''/working/media/'' @ f))}"
    unfolding keys by auto
  have vals': "\<forall>k u. map_of m k = Some u \<longrightarrow>
      (\<exists>f b. k = ''media/'' @ f \<and> fsReadFile h (fs w) (''/working/media/'' @ f) = Inr b
         \<and> u < length (objectUrls w') \<and> objectUrls w' ! u = Blob b (Mime []))"
    using vals by blast
  have count: "length m = length ?names - 1"
    if b: "distinct files \<and> bad \<in> set files \<and> bad \<noteq> ''.'' \<and> bad \<noteq> ''..''
         \<and> (\<forall>f \<in> set files. f \<noteq> ''.'' \<and> f \<noteq> ''..'' \<longrightarrow>
                         (f \<noteq> bad) = (\<not> isl (fsReadFile h (fs w) (''/working/media/'' @ f))))"
    for bad
  proof -
    have d: "distinct ?names" using b by simp
    have bn: "bad \<in> set ?names" using b by simp
    have rd: "\<forall>f \<in> set ?names. (f \<noteq> bad) = (\<not> isl (fsReadFile h (fs w) (''/working/media/'' @ f)))"
      using b by simp
    have "length m = card (fst ` set m)"
      using dist by (metis distinct_card length_map set_map)
    also have "\<dots> = length ?names - 1"
      unfolding keys using card_media_keys [OF d bn rd] .
    finally show ?thesis .
  qed
  show "\<exists>m w'. readMediaFiles h w = (Inr m, w') \<and> distinct (map fst m)
            \<and> fst ` set m =
                {''media/'' @ f | f. f \<in> set files \<and> f \<noteq> ''.'' \<and> f \<noteq> ''..''
                   \<and> \<not> isl (fsReadFile h (fs w) (''/working/media/'' @ f))}
            \<and> (\<forall>k u. map_of m k = Some u \<longrightarrow>
                  (\<exists>f b. k = ''media/'' @ f \<and> fsReadFile h (fs w) (''/working/media/'' @ f) = Inr b
                     \<and> u < length (objectUrls w') \<and> objectUrls w' ! u = Blob b (Mime [])))
            \<and> (\<forall>bad. distinct files \<and> bad \<in> set files \<and> bad \<noteq> ''.'' \<and> bad \<noteq> ''..''
                  \<and> (\<forall>f \<in> set files. f \<noteq> ''.'' \<and> f \<noteq> ''..'' \<longrightarrow>
                         (f \<noteq> bad) = (\<not> isl (fsReadFile h (fs w) (''/working/media/'' @ f))))
                  \<longrightarrow> length m = length (filter (\<lambda>f. f \<noteq> ''.'' \<and> f \<noteq> ''..'') files) - 1)"
    using run dist keys' vals' count by blast
next
  fix sn d rn dt result w1
  assume st: "stageAndConvert h sn d w = (Inr result, w1)"
  obtain m w2 where rm: "readMediaFiles h w1 = (Inr m, w2)"
    using readMediaFiles_total [of h w1] by blast
  have "convertStaged h sn d rn dt w
      = (Inr \<lparr>fileName = rn, docType = dt, bin = result, media = m\<rparr>, w2)"
    using st rm by (simp add: convertStaged_def andThen_def succeed_def)
  with rm show "\<exists>m w2. readMediaFiles h w1 = (Inr m, w2)
            \<and> convertStaged h sn d rn dt w
                = (Inr \<lparr>fileName = rn, docType = dt, bin = result, media = m\<rparr>, w2)"
    by blast
qed


theorem readMediaFiles_witness:
  "x2tModule mediaWorld
   \<and> fsReaddir brokenMediaHost (fs mediaWorld) ''/working/media/''
       = Inr [''.'', ''..'', ''image1.png'', ''image2.png'', ''image3.png'']
   \<and> isl (fsReadFile brokenMediaHost (fs mediaWorld) ''/working/media/image2.png'')
   \<and> fst (readMediaFiles brokenMediaHost mediaWorld)
       = Inr [(''media/image1.png'', 0), (''media/image3.png'', 1)]
   \<and> (\<exists>m w'. readMediaFiles brokenMediaHost mediaWorld = (Inr m, w') \<and> length m = 2)"
proof -
  let ?files = "[''.'', ''..'', ''image1.png'', ''image2.png'', ''image3.png'']"
  have a: "x2tModule mediaWorld" by code_simp
  have b: "fsReaddir brokenMediaHost (fs mediaWorld) ''/working/media/'' = Inr ?files" by code_simp
  have c: "isl (fsReadFile brokenMediaHost (fs mediaWorld) ''/working/media/image2.png'')" by code_simp
  have d: "fst (readMediaFiles brokenMediaHost mediaWorld)
       = Inr [(''media/image1.png'', 0), (''media/image3.png'', 1)]" by code_simp
  have e: "distinct ?files \<and> ''image2.png'' \<in> set ?files \<and> ''image2.png'' \<noteq> ''.'' \<and> ''image2.png'' \<noteq> ''..''
      \<and> (\<forall>f \<in> set ?files. f \<noteq> ''.'' \<and> f \<noteq> ''..'' \<longrightarrow> (f \<noteq> ''image2.png'')
            = (\<not> isl (fsReadFile brokenMediaHost (fs mediaWorld) (''/working/media/'' @ f))))"
    by code_simp
  have n: "length (filter (\<lambda>f. f \<noteq> ''.'' \<and> f \<noteq> ''..'') ?files) - 1 = 2" by code_simp
  from readMediaFiles_resilient [OF a, of brokenMediaHost, THEN conjunct2, THEN conjunct1,
      rule_format, OF b]
  obtain m w' where run: "readMediaFiles brokenMediaHost mediaWorld = (Inr m, w')"
    and cnt: "\<forall>bad. distinct ?files \<and> bad \<in> set ?files \<and> bad \<noteq> ''.'' \<and> bad \<noteq> ''..''
        \<and> (\<forall>f \<in> set ?files. f \<noteq> ''.'' \<and> f \<noteq> ''..'' \<longrightarrow> (f \<noteq> bad)
              = (\<not> isl (fsReadFile brokenMediaHost (fs mediaWorld) (''/working/media/'' @ f))))
        \<longrightarrow> length m = length (filter (\<lambda>f. f \<noteq> ''.'' \<and> f \<noteq> ''..'') ?files) - 1"
    by (elim exE conjE) (rule that; assumption)
  from cnt [rule_format, OF e]
  have "length m = length (filter (\<lambda>f. f \<noteq> ''.'' \<and> f \<noteq> ''..'') ?files) - 1" .
  with n have l: "length m = 2" by simp
  from run l have "\<exists>m w'. readMediaFiles brokenMediaHost mediaWorld = (Inr m, w') \<and> length m = 2"
    by blast
  with a b c d show ?thesis by (intro conjI)
qed

section \<open>Unregistered extensions\<close>

lemma initialize_ready: "isReady w \<Longrightarrow> x2tModule w \<Longrightarrow> initialize h w = (Inr (), w)"
  by (simp add: initialize_def)

text \<open>An extension that the lookup does not find, in the table or in the prototype, is
  rejected by a ready converter before anything else happens.\<close>

lemma convertDocument_unregistered_extension:
  assumes "getProperty DOCUMENT_TYPE_MAP (toLowerCase (fileExtOf h file)) = Undefined"
    and "isReady w" and "x2tModule w"
  shows "convertDocument h file w = (Inl (UnsupportedFormat (fileExtOf h file)), w)"
  using assms
  by (simp add: convertDocument_def andThen_def initialize_ready liftE_def getDocumentType_def)

text \<open>
  C6. The claim is that every extension outside the table makes \<open>convertDocument\<close> fail
  with the unsupported-format error before any write. The lookup
  \<open>DOCUMENT_TYPE_MAP[extension.toLowerCase()]\<close> also finds the members that the table
  inherits from \<open>Object.prototype\<close>: for \<open>a.constructor\<close> it returns a function, the
  test \<open>!docType\<close> lets it through, and the file is staged and converted.
\<close>

theorem convertDocument_accepts_constructor_extension:
  "fileExtOf demoHost constructorFile = ''constructor''
   \<and> map_of DOCUMENT_TYPE_MAP (toLowerCase ''constructor'') = None
   \<and> getDocumentType ''constructor'' = Inr PrototypeMember
   \<and> fst (convertDocument demoHost constructorFile readyWorld)
       = Inr \<lparr>fileName = ''a.constructor'', docType = PrototypeMember, bin = [1, 2], media = []\<rparr>
   \<and> fsLog (snd (convertDocument demoHost constructorFile readyWorld))
       = [WriteFile ''/working/a.constructor'' (Bin [1, 2]),
          WriteFile ''/working/params.xml''
            (ParamsXml ''/working/a.constructor'' ''/working/a.constructor.bin'' []),
          Ccall ''/working/params.xml'', ReadFile ''/working/a.constructor.bin'',
          Readdir ''/working/media/'']"
  by code_simp

section \<open>Initialisation\<close>

text \<open>A failing script load enters the \<open>catch\<close> block: the promise is cleared, and the
  next call boots again.\<close>

lemma initialize_script_failure_clears:
  assumes "initPromise w = None" and "\<not> isReady w" and "\<not> hasScriptLoaded w" and "\<not> scriptLoads h"
  shows "initialize h w = (Inl ScriptLoadFailed, w)"
  using assms by (simp add: initialize_def doInitialize_def loadScript_def awaitPromise_def)

text \<open>A successful boot is cached: every later call returns at once and changes nothing.\<close>

lemma initialize_success_cached:
  assumes "initPromise w = None" and "initialize h w = (Inr u, w1)"
  shows "initialize h' w1 = (Inr (), w1)"
  using assms
  by (auto simp: initialize_def doInitialize_def loadScript_def awaitPromise_def
      split: if_splits promise.splits)

text \<open>
  C2. The claim is that every failed initialisation clears the shared promise, so that
  the next call boots again. That holds for a failing script load only. When the
  module is missing after the script loaded, or its ready signal does not come, the
  rejected promise stays in \<open>initPromise\<close>: every later call, whatever the host then
  does, returns that same rejection and changes nothing.
\<close>

theorem initialize_failure_after_script_load_is_kept:
  assumes "initPromise w = None" and "\<not> isReady w"
    and "hasScriptLoaded w \<or> scriptLoads h"
    and "\<not> moduleDefined h \<or> \<not> runtimeInitializes h"
  shows "\<exists>e w1. initialize h w = (Inl e, w1) \<and> initPromise w1 = Some (Rejected e)
           \<and> (\<forall>h'. initialize h' w1 = (Inl e, w1))"
proof -
  let ?e = "if \<not> moduleDefined h then ModuleNotFound else InitTimeout"
  let ?w1 = "w\<lparr>hasScriptLoaded := True, initPromise := Some (Rejected ?e)\<rparr>"
  have run: "initialize h w = (Inl ?e, ?w1)"
    using assms
    by (auto simp: initialize_def doInitialize_def loadScript_def awaitPromise_def)
  have later: "initialize h' ?w1 = (Inl ?e, ?w1)" for h' :: "'a host"
    using assms by (simp add: initialize_def awaitPromise_def)
  show ?thesis using run later by (intro exI [of _ ?e] exI [of _ ?w1]) simp
qed

theorem initialize_failure_witness:
  "initPromise (freshWorld ([] :: (string \<times> content) list)) = None
   \<and> \<not> isReady (freshWorld ([] :: (string \<times> content) list))
   \<and> scriptLoads (demoHost\<lparr>moduleDefined := False\<rparr>)
   \<and> \<not> moduleDefined (demoHost\<lparr>moduleDefined := False\<rparr>)
   \<and> fst (initialize (demoHost\<lparr>moduleDefined := False\<rparr>) (freshWorld [])) = Inl ModuleNotFound
   \<and> fst (initialize demoHost (snd (initialize (demoHost\<lparr>moduleDefined := False\<rparr>) (freshWorld []))))
       = Inl ModuleNotFound
   \<and> fst (initialize demoHost (freshWorld [])) = Inr ()"
proof -
  let ?h = "demoHost\<lparr>moduleDefined := False\<rparr>"
  let ?w = "freshWorld [] :: (string \<times> content) list world"
  have a: "initPromise ?w = None" and b: "\<not> isReady ?w" by code_simp+
  have c: "scriptLoads ?h" and d: "\<not> moduleDefined ?h" by code_simp+
  have good: "fst (initialize demoHost ?w) = Inr ()" by code_simp
  have first: "fst (initialize ?h ?w) = Inl ModuleNotFound" by code_simp
  from initialize_failure_after_script_load_is_kept [of ?w ?h] a b c d
  obtain e w1 where run: "initialize ?h ?w = (Inl e, w1)"
    and later: "\<forall>h'. initialize h' w1 = (Inl e, w1)"
    by blast
  from run first have e: "e = ModuleNotFound" by simp
  from later have "initialize demoHost w1 = (Inl e, w1)" by blast
  with run e have "fst (initialize demoHost (snd (initialize ?h ?w))) = Inl ModuleNotFound"
    by simp
  with a b c d first good show ?thesis by (intro conjI)
qed

section \<open>Write-file events\<close>

lemma member_nullish: "isNullish v \<Longrightarrow> member v key = JUndefined"
  by (auto simp: isNullish_def member_def split: jsValue.splits)

lemma truthy_not_nullish: "truthy (member v key) \<Longrightarrow> \<not> isNullish v"
  using member_nullish [of v key] by (auto simp: truthy_def)

lemma writeFileBody_no_data:
  assumes "\<not> isNullish event" and "\<not> truthy (member event ''data'')"
  shows "writeFileBody api event w = (Inr (), w)"
  using assms by (simp add: writeFileBody_def readMember_def andThen_def succeed_def)

lemma writeFileBody_invalid:
  assumes "truthy (member event ''data'')"
    and "\<not> (validImageData (member (member event ''data'') ''data'')
            \<and> validFileName (member (member event ''data'') ''file''))"
  shows "writeFileBody api event w =
     (Inl (if validImageData (member (member event ''data'') ''data'')
           then InvalidFileName else InvalidImageData), w)"
  using assms truthy_not_nullish [OF assms(1)]
  by (auto simp: writeFileBody_def readMember_def andThen_def succeed_def throwE_def
      validImageData_def validFileName_def split: jsValue.splits)

lemma sendCommand_quiet:
  "\<not> sendCommandThrows api c \<Longrightarrow>
     sendCommand api c w = (Inr (), if editor w then w\<lparr>sent := sent w @ [c]\<rparr> else w)"
  by (simp add: sendCommand_def)

lemma writeFileBody_quiet:
  assumes "\<forall>c. \<not> sendCommandThrows api c" and "\<not> isNullish event"
  shows "fst (writeFileBody api event w) = Inr ()
     \<or> (\<exists>e. writeFileBody api event w = (Inl e, w))"
proof (cases "truthy (member event ''data'')")
  case False
  then show ?thesis using assms(2) by (simp add: writeFileBody_no_data)
next
  case True
  show ?thesis
  proof (cases "validImageData (member (member event ''data'') ''data'')
            \<and> validFileName (member (member event ''data'') ''file'')")
    case False
    with True show ?thesis by (simp add: writeFileBody_invalid)
  next
    case v: True
    then obtain imageData fName where i: "member (member event ''data'') ''data'' = JUint8Array imageData"
      and f: "member (member event ''data'') ''file'' = JString fName" and n: "fName \<noteq> []"
      by (auto simp: validImageData_def validFileName_def split: jsValue.splits)
    have "fst (writeFileBody api event w) = Inr ()"
      using True assms i f n
      by (simp add: writeFileBody_def readMember_def andThen_def succeed_def Let_def
          createObjectURL_def sendCommand_quiet)
    then show ?thesis by simp
  qed
qed

lemma writeFileFailed_quiet:
  assumes "\<forall>c. \<not> sendCommandThrows api c" and "\<forall>f. \<not> callbackThrows api f"
    and "\<not> isNullish event"
  shows "fst (writeFileFailed api event e w) = Inr ()"
  using assms
  by (simp add: writeFileFailed_def andThen_def sendCommand_quiet readMember_def succeed_def
      callBack_def split: jsValue.splits)

lemma writeFileFailed_sent:
  assumes "editor w" and "\<not> sendCommandThrows api (WriteFileFailure e)"
  shows "sent (snd (writeFileFailed api event e w)) = sent w @ [WriteFileFailure e]
     \<and> globalMedia (snd (writeFileFailed api event e w)) = globalMedia w
     \<and> objectUrls (snd (writeFileFailed api event e w)) = objectUrls w"
  using assms
  by (simp add: writeFileFailed_def andThen_def sendCommand_quiet readMember_def succeed_def
      throwE_def callBack_def split: jsValue.splits)

text \<open>A \<open>null\<close> event makes the \<open>try\<close> block throw, and the \<open>catch\<close> block throws again
  when it reads \<open>event.callback\<close>; an exception of \<open>sendCommand\<close> in the \<open>catch\<close> block
  leaves the handler as well.\<close>

lemma handleWriteFile_null_event_throws:
  "fst (handleWriteFile quietApi JNull csvSession) = Inl TypeError"
  by code_simp

lemma handleWriteFile_propagates_sendCommand_failure:
  "fst (handleWriteFile throwingApi
      (JObject [(''data'', JObject [(''data'', JUint8Array [1]), (''file'', JString ''x.png'')])])
      csvSession) = Inl (HostError ''sendCommand'')"
  by code_simp

text \<open>
  C10. The claim is that an event with a present \<open>data\<close> field but invalid bytes or file
  name gets a failure report, and that the handler never throws. The guard
  \<open>if (!eventData) return\<close> returns silently for every falsy \<open>data\<close>, present or not.
  What holds for an event that is not \<open>null\<close> or \<open>undefined\<close>: with a falsy \<open>data\<close> the
  handler returns and leaves the state as it was; with a truthy \<open>data\<close> whose bytes are
  not a \<open>Uint8Array\<close> or whose file name is not a non-empty string, an editor being set
  whose \<open>sendCommand\<close> returns for the report, exactly that one command is sent and
  the media map stays as it was; and when \<open>sendCommand\<close> and the callbacks return, the
  handler returns.
\<close>

theorem handleWriteFile_reports:
  "(\<not> isNullish event \<and> \<not> truthy (member event ''data'')
      \<longrightarrow> handleWriteFile api event w = (Inr (), w))
   \<and> (truthy (member event ''data'')
        \<and> \<not> (validImageData (member (member event ''data'') ''data'')
              \<and> validFileName (member (member event ''data'') ''file''))
        \<and> editor w
        \<and> \<not> sendCommandThrows api (WriteFileFailure
               (if validImageData (member (member event ''data'') ''data'')
                then InvalidFileName else InvalidImageData))
        \<longrightarrow>
          sent (snd (handleWriteFile api event w))
            = sent w @ [WriteFileFailure
                 (if validImageData (member (member event ''data'') ''data'')
                  then InvalidFileName else InvalidImageData)]
          \<and> globalMedia (snd (handleWriteFile api event w)) = globalMedia w
          \<and> objectUrls (snd (handleWriteFile api event w)) = objectUrls w)
   \<and> (\<not> isNullish event \<and> (\<forall>c. \<not> sendCommandThrows api c) \<and> (\<forall>f. \<not> callbackThrows api f)
        \<longrightarrow> fst (handleWriteFile api event w) = Inr ())"
proof (intro conjI impI)
  assume "\<not> isNullish event \<and> \<not> truthy (member event ''data'')"
  then show "handleWriteFile api event w = (Inr (), w)"
    by (simp add: handleWriteFile_def tryCatch_def writeFileBody_no_data)
next
  let ?e = "if validImageData (member (member event ''data'') ''data'')
            then InvalidFileName else InvalidImageData"
  assume a: "truthy (member event ''data'')
        \<and> \<not> (validImageData (member (member event ''data'') ''data'')
              \<and> validFileName (member (member event ''data'') ''file''))
        \<and> editor w \<and> \<not> sendCommandThrows api (WriteFileFailure ?e)"
  then have b: "writeFileBody api event w = (Inl ?e, w)"
    using writeFileBody_invalid [of event api w] by blast
  have h: "handleWriteFile api event w = writeFileFailed api event ?e w"
    by (simp add: handleWriteFile_def tryCatch_def b)
  from a have "editor w" and "\<not> sendCommandThrows api (WriteFileFailure ?e)" by simp_all
  then have r: "sent (snd (handleWriteFile api event w)) = sent w @ [WriteFileFailure ?e]
          \<and> globalMedia (snd (handleWriteFile api event w)) = globalMedia w
          \<and> objectUrls (snd (handleWriteFile api event w)) = objectUrls w"
    unfolding h by (rule writeFileFailed_sent)
  from r show "sent (snd (handleWriteFile api event w)) = sent w @ [WriteFileFailure ?e]" by simp
  from r show "globalMedia (snd (handleWriteFile api event w)) = globalMedia w" by simp
  from r show "objectUrls (snd (handleWriteFile api event w)) = objectUrls w" by simp
next
  assume a: "\<not> isNullish event \<and> (\<forall>c. \<not> sendCommandThrows api c) \<and> (\<forall>f. \<not> callbackThrows api f)"
  then have q: "\<forall>c. \<not> sendCommandThrows api c" and c: "\<forall>f. \<not> callbackThrows api f"
    and n: "\<not> isNullish event" by simp_all
  from writeFileBody_quiet [OF q n, of w] show "fst (handleWriteFile api event w) = Inr ()"
  proof
    assume "fst (writeFileBody api event w) = Inr ()"
    then show ?thesis
      by (cases "writeFileBody api event w") (simp add: handleWriteFile_def tryCatch_def)
  next
    assume "\<exists>e. writeFileBody api event w = (Inl e, w)"
    then obtain e where "writeFileBody api event w = (Inl e, w)" by blast
    then have "handleWriteFile api event w = writeFileFailed api event e w"
      by (simp add: handleWriteFile_def tryCatch_def)
    then show ?thesis using writeFileFailed_quiet [OF q c n] by simp
  qed
qed

theorem handleWriteFile_witness:
  "\<not> isNullish (JObject []) \<and> \<not> truthy (member (JObject []) ''data'')
   \<and> handleWriteFile quietApi (JObject []) csvSession = (Inr (), csvSession)
   \<and> truthy (member (JObject [(''data'', JObject [(''file'', JString ''x.png'')])]) ''data'')
   \<and> \<not> validImageData (member (member (JObject [(''data'', JObject [(''file'', JString ''x.png'')])]) ''data'') ''data'')
   \<and> editor csvSession
   \<and> sent (snd (handleWriteFile quietApi (JObject [(''data'', JObject [(''file'', JString ''x.png'')])]) csvSession))
       = [WriteFileFailure InvalidImageData]
   \<and> fst (handleWriteFile quietApi
         (JObject [(''data'', JObject [(''data'', JUint8Array [1]), (''file'', JString ''x.png'')])]) csvSession)
       = Inr ()
   \<and> sent (snd (handleWriteFile quietApi
         (JObject [(''data'', JObject [(''data'', JUint8Array [1]), (''file'', JString ''x.png'')])]) csvSession))
       = [SetImageUrls [(''media/x.png'', 0)], WriteFileCallback 0 ''x.png'']"
proof -
  let ?ev = "JObject [(''data'', JObject [(''file'', JString ''x.png'')])]"
  let ?ok = "JObject [(''data'', JObject [(''data'', JUint8Array [1]), (''file'', JString ''x.png'')])]"
  have n0: "\<not> isNullish (JObject [])" and n: "\<not> truthy (member (JObject []) ''data'')" by code_simp+
  have t: "truthy (member ?ev ''data'')" by code_simp
  have v: "\<not> validImageData (member (member ?ev ''data'') ''data'')" by code_simp
  have e: "editor csvSession" by code_simp
  have s0: "sent csvSession = []" by code_simp
  have q: "\<forall>c. \<not> sendCommandThrows quietApi c" and c: "\<forall>f. \<not> callbackThrows quietApi f"
    by (simp_all add: quietApi_def)
  have nk: "\<not> isNullish ?ok" by code_simp
  have ok: "sent (snd (handleWriteFile quietApi ?ok csvSession))
       = [SetImageUrls [(''media/x.png'', 0)], WriteFileCallback 0 ''x.png'']" by code_simp
  note th = handleWriteFile_reports
  from th [of "JObject []" quietApi csvSession, THEN conjunct1, rule_format] n0 n
  have a: "handleWriteFile quietApi (JObject []) csvSession = (Inr (), csvSession)" by blast
  from th [of ?ev quietApi csvSession, THEN conjunct2, THEN conjunct1, rule_format] t v e q
  have "sent (snd (handleWriteFile quietApi ?ev csvSession))
      = sent csvSession @ [WriteFileFailure
          (if validImageData (member (member ?ev ''data'') ''data'')
           then InvalidFileName else InvalidImageData)]"
    by blast
  with v s0 have b: "sent (snd (handleWriteFile quietApi ?ev csvSession)) = [WriteFileFailure InvalidImageData]"
    by simp
  from th [of ?ok quietApi csvSession, THEN conjunct2, THEN conjunct2, rule_format] nk q c
  have r: "fst (handleWriteFile quietApi ?ok csvSession) = Inr ()" by blast
  from n0 n a t v e b r ok show ?thesis by (intro conjI)
qed

text \<open>The claim fails as stated: an event whose \<open>data\<close> field is there and holds \<open>null\<close>,
  so no bytes and no file name, is dropped without a report to the editor or to its
  callback.\<close>

theorem handleWriteFile_counterexample:
  "map_of [(''data'', JNull), (''callback'', JFunction 3)] ''data'' = Some JNull
   \<and> \<not> validImageData (member (member (JObject [(''data'', JNull), (''callback'', JFunction 3)]) ''data'') ''data'')
   \<and> editor csvSession
   \<and> handleWriteFile quietApi (JObject [(''data'', JNull), (''callback'', JFunction 3)]) csvSession
       = (Inr (), csvSession)
   \<and> sent csvSession = [] \<and> calledBack csvSession = []"
  by code_simp

section \<open>The operation queue\<close>

text \<open>A second call made once the first has installed its promise waits for it: the first
  instance is destroyed before the second is constructed.\<close>

lemma createEditorInstance_after_a_turn_is_serialised:
  "events (run workingEditor 20 (createEditorInstance xlsxConfig
      (run workingEditor 1 (createEditorInstance docxConfig initialPage))))
     = [ClearContainer 0, Construct 0 0, DestroyEditor 1 0, ClearContainer 1, Construct 1 1]
   \<and> liveEditors (run workingEditor 20 (createEditorInstance xlsxConfig
      (run workingEditor 1 (createEditorInstance docxConfig initialPage)))) = [1]"
  by code_simp

text \<open>With an editor open, two calls made in one turn both call \<open>destroyEditor\<close> on it and
  both construct an instance.\<close>

lemma two_creates_in_one_turn_with_an_open_editor:
  "events (run workingEditor 30 (createEditorInstance xlsxConfig (createEditorInstance docxConfig
      (run workingEditor 20 (createEditorInstance docxConfig initialPage)))))
     = [ClearContainer 0, Construct 0 0, DestroyEditor 1 0, DestroyEditor 2 0,
        ClearContainer 1, ClearContainer 2, Construct 1 1, Construct 2 2]
   \<and> liveEditors (run workingEditor 30 (createEditorInstance xlsxConfig (createEditorInstance docxConfig
      (run workingEditor 20 (createEditorInstance docxConfig initialPage))))) = [1, 2]"
  by code_simp

text \<open>
  C1. The claim is that two calls of the create path made one after the other, without
  awaiting, end with one live instance, the first destroyed before the second is
  constructed. Both calls read the same settled tail at \<open>await editorOperationQueue\<close>,
  before either has installed its own promise; both operations then run, neither finds
  an editor to destroy, and both construct one. The first instance is never destroyed.
\<close>

theorem two_creates_in_one_turn_leave_two_editors:
  "idle (run workingEditor 20
      (createEditorInstance xlsxConfig (createEditorInstance docxConfig initialPage)))
   \<and> events (run workingEditor 20
      (createEditorInstance xlsxConfig (createEditorInstance docxConfig initialPage)))
     = [ClearContainer 0, ClearContainer 1, Construct 0 0, Construct 1 1]
   \<and> liveEditors (run workingEditor 20
      (createEditorInstance xlsxConfig (createEditorInstance docxConfig initialPage))) = [0, 1]
   \<and> windowEditor (run workingEditor 20
      (createEditorInstance xlsxConfig (createEditorInstance docxConfig initialPage))) = Some 1"
  by code_simp

text \<open>
  C3. The claim is that after an operation whose body throws, a later operation still
  runs its body. The tail promise is settled, but rejected, and the next call's
  \<open>await editorOperationQueue\<close> throws that rejection before the call installs a promise
  of its own: on an idle page whose tail is rejected, a call of the create path ends
  rejected with the same error, runs nothing of its operation and leaves the tail as it
  was, so every later call fails in the same way.
\<close>

theorem rejected_tail_rejects_every_later_operation:
  assumes "idle pg" and "promiseState pg (editorOperationQueue pg) = Settled (Rejected e)"
  shows "run eh (Suc n) (createEditorInstance cfg pg)
     = pg\<lparr>calls := calls pg @ [\<lparr>config = cfg, operationPromise = None, outcome = Settled (Rejected e)\<rparr>]\<rparr>"
proof -
  let ?k = "length (calls pg)"
  let ?p = "editorOperationQueue pg"
  let ?c = "\<lparr>config = cfg, operationPromise = None, outcome = Pending\<rparr>"
  let ?pg1 = "pg\<lparr>calls := calls pg @ [?c], microtasks := [ResumeQueue ?k ?p]\<rparr>"
  let ?pg2 = "pg\<lparr>calls := calls pg @ [\<lparr>config = cfg, operationPromise = None, outcome = Settled (Rejected e)\<rparr>]\<rparr>"
  have m: "microtasks pg = []" and t: "timers pg = []" using assms(1) by (simp_all add: idle_def)
  have ps: "promiseState (pg\<lparr>calls := cs\<rparr>) ?p = Settled (Rejected e)" for cs
    using assms(2) by (auto simp: promiseState_def split: if_splits)
  have ps': "promiseState (pg\<lparr>calls := cs, microtasks := ms\<rparr>) ?p = Settled (Rejected e)" for cs ms
    using assms(2) by (auto simp: promiseState_def split: if_splits)
  have c: "createEditorInstance cfg pg = ?pg1"
    using m by (simp add: createEditorInstance_def await_def Let_def ps)
  have s1: "step eh ?pg1 = Some ?pg2"
    by (simp add: step_def runTask_def setOutcome_def ps' m)
  have s2: "step eh ?pg2 = None"
    using m t by (simp add: step_def)
  show ?thesis
    unfolding c using s1 s2 by (cases n) simp_all
qed

theorem rejected_tail_witness:
  "idle (run failingEditor 20 (createEditorInstance badConfig initialPage))
   \<and> promiseState (run failingEditor 20 (createEditorInstance badConfig initialPage))
        (editorOperationQueue (run failingEditor 20 (createEditorInstance badConfig initialPage)))
      = Settled (Rejected (HostError ''DocEditor''))
   \<and> constructs failingEditor docxConfig
   \<and> events (run failingEditor 20 (createEditorInstance docxConfig
        (run failingEditor 20 (createEditorInstance badConfig initialPage)))) = [ClearContainer 0]
   \<and> map outcome (calls (run failingEditor 20 (createEditorInstance docxConfig
        (run failingEditor 20 (createEditorInstance badConfig initialPage)))))
      = [Settled (Rejected (HostError ''DocEditor'')), Settled (Rejected (HostError ''DocEditor''))]"
proof -
  let ?pg = "run failingEditor 20 (createEditorInstance badConfig initialPage)"
  have a: "idle ?pg" by code_simp
  have b: "promiseState ?pg (editorOperationQueue ?pg) = Settled (Rejected (HostError ''DocEditor''))"
    by code_simp
  have c: "constructs failingEditor docxConfig" by code_simp
  have ev: "events ?pg = [ClearContainer 0]" by code_simp
  have oc: "map outcome (calls ?pg) = [Settled (Rejected (HostError ''DocEditor''))]" by code_simp
  have "run failingEditor (Suc 19) (createEditorInstance docxConfig ?pg)
     = ?pg\<lparr>calls := calls ?pg @ [\<lparr>config = docxConfig, operationPromise = None,
          outcome = Settled (Rejected (HostError ''DocEditor''))\<rparr>]\<rparr>"
    using a b by (rule rejected_tail_rejects_every_later_operation)
  then have r: "run failingEditor 20 (createEditorInstance docxConfig ?pg)
     = ?pg\<lparr>calls := calls ?pg @ [\<lparr>config = docxConfig, operationPromise = None,
          outcome = Settled (Rejected (HostError ''DocEditor''))\<rparr>]\<rparr>"
    by simp
  have e2: "events (run failingEditor 20 (createEditorInstance docxConfig ?pg)) = [ClearContainer 0]"
    unfolding r using ev by simp
  have o2: "map outcome (calls (run failingEditor 20 (createEditorInstance docxConfig ?pg)))
      = [Settled (Rejected (HostError ''DocEditor'')), Settled (Rejected (HostError ''DocEditor''))]"
    unfolding r using oc by simp
  from a b c e2 o2 show ?thesis by (intro conjI)
qed

end
